theory Spec2Isabelle
  imports Main "HOL-Library.Word" "HOL-Library.AList"
begin

section \<open>Strings, bytes and the built-ins of the runtime\<close>

text \<open>
  The program is \<^verbatim>\<open>src/email.ts\<close>, the class \<^verbatim>\<open>Email\<close>. A JavaScript string is a
  sequence of UTF-16 code units; the model writes it as a \<^typ>\<open>string\<close> whose characters are
  the code units \<open>0 .. 255\<close>, so \<^term>\<open>length\<close> is \<^verbatim>\<open>.length\<close>. A \<^verbatim>\<open>Buffer\<close> is a list of
  bytes. An optional value is an \<^typ>\<open>'a option\<close> with \<^term>\<open>None\<close> for \<^verbatim>\<open>undefined\<close>.
\<close>

type_synonym byte = "8 word"

abbreviation DQ :: string where
  "DQ \<equiv> [CHR 0x22]"

abbreviation CRLF :: string where
  "CRLF \<equiv> [CHR 0x0D, CHR 0x0A]"

text \<open>Truthiness of an optional string: \<^verbatim>\<open>undefined\<close> and the empty string are falsy.\<close>

definition truthy :: "string option \<Rightarrow> bool" where
  "truthy s = (case s of None \<Rightarrow> False | Some t \<Rightarrow> t \<noteq> [])"

text \<open>\<^verbatim>\<open>Array.prototype.join\<close> on an array of strings.\<close>

fun join :: "string \<Rightarrow> string list \<Rightarrow> string" where
  "join sep [] = []"
| "join sep [x] = x"
| "join sep (x # y # ys) = x @ sep @ join sep (y # ys)"

text \<open>
  The class \<^verbatim>\<open>\s\<close> of a regular expression on the code units below 256: TAB, LF, VT, FF,
  CR, SPACE and NBSP. The class \<^verbatim>\<open>.\<close> excludes the line terminators LF and CR.
\<close>

definition is_space :: "char \<Rightarrow> bool" where
  "is_space c = (c \<in> set [CHR 0x09, CHR 0x0A, CHR 0x0B, CHR 0x0C, CHR 0x0D, CHR 0x20, CHR 0xA0])"

definition is_line_terminator :: "char \<Rightarrow> bool" where
  "is_line_terminator c = (c = CHR 0x0A \<or> c = CHR 0x0D)"

text \<open>
  \<^verbatim>\<open>text.match(/\S+/g) || []\<close>: the maximal runs of non-whitespace, left to right. The
  first argument is the run being read.
\<close>

fun match_nonspace_from :: "string \<Rightarrow> string \<Rightarrow> string list" where
  "match_nonspace_from run [] = (if run = [] then [] else [run])"
| "match_nonspace_from run (c # cs) =
     (if is_space c then (if run = [] then [] else [run]) @ match_nonspace_from [] cs
      else match_nonspace_from (run @ [c]) cs)"

definition match_nonspace :: "string \<Rightarrow> string list" where
  "match_nonspace text = match_nonspace_from [] text"

text \<open>
  \<^verbatim>\<open>content.match(/.{1,72}/g)\<close>: greedy runs of at most \<open>n\<close> characters that are not
  line terminators; the empty list stands for the \<^verbatim>\<open>null\<close> of no match.
\<close>

fun match_dot_from :: "nat \<Rightarrow> string \<Rightarrow> string \<Rightarrow> string list" where
  "match_dot_from n run [] = (if run = [] then [] else [run])"
| "match_dot_from n run (c # cs) =
     (if is_line_terminator c then (if run = [] then [] else [run]) @ match_dot_from n [] cs
      else if length run < n then match_dot_from n (run @ [c]) cs
      else run # match_dot_from n [c] cs)"

definition match_dot :: "nat \<Rightarrow> string \<Rightarrow> string list" where
  "match_dot n content = match_dot_from n [] content"

text \<open>
  \<^verbatim>\<open>String.prototype.toLowerCase\<close> on the code units below 256: the letters A to Z and the
  Latin-1 capitals \<open>0xC0 .. 0xDE\<close> (without the multiplication sign \<open>0xD7\<close>) move up by 32.
\<close>

definition to_lower_unit :: "char \<Rightarrow> char" where
  "to_lower_unit c =
     (let n = (of_char c :: nat)
      in if (65 \<le> n \<and> n \<le> 90) \<or> (192 \<le> n \<and> n \<le> 222 \<and> n \<noteq> 215)
         then char_of (n + 32) else c)"

definition toLowerCase :: "string \<Rightarrow> string" where
  "toLowerCase s = map to_lower_unit s"

text \<open>\<^verbatim>\<open>s.split(sep).pop()\<close>: what follows the last separator, all of \<open>s\<close> without one.\<close>

definition split_pop :: "char \<Rightarrow> string \<Rightarrow> string" where
  "split_pop sep s = rev (takeWhile (\<lambda>c. c \<noteq> sep) (rev s))"

text \<open>
  \<^verbatim>\<open>Buffer.from(s, 'utf8')\<close> on code units below 256: one byte below 128, two bytes from
  128 on.
\<close>

definition utf8_unit :: "char \<Rightarrow> byte list" where
  "utf8_unit c =
     (let n = (of_char c :: nat)
      in if n < 128 then [of_nat n] else [of_nat (192 + n div 64), of_nat (128 + n mod 64)])"

definition utf8 :: "string \<Rightarrow> byte list" where
  "utf8 s = concat (map utf8_unit s)"


text \<open>\<^verbatim>\<open>buf.toString('base64')\<close>: the alphabet of RFC 4648 with \<open>=\<close> padding.\<close>

definition base64_alphabet :: string where
  "base64_alphabet = ''ABCDEFGHIJKLMNOPQRSTUVWXYZabcdefghijklmnopqrstuvwxyz0123456789+/''"

definition b64_char :: "nat \<Rightarrow> char" where
  "b64_char n = base64_alphabet ! (n mod 64)"

fun base64_encode :: "byte list \<Rightarrow> string" where
  "base64_encode [] = []"
| "base64_encode [a] =
     (let n = unat a
      in [b64_char (n div 4), b64_char (n mod 4 * 16), CHR ''='', CHR ''=''])"
| "base64_encode [a, b] =
     (let n = unat a * 256 + unat b
      in [b64_char (n div 1024), b64_char (n div 16 mod 64), b64_char (n mod 16 * 4), CHR ''=''])"
| "base64_encode (a # b # c # rest) =
     (let n = unat a * 65536 + unat b * 256 + unat c
      in [b64_char (n div 262144), b64_char (n div 4096 mod 64), b64_char (n div 64 mod 64),
          b64_char (n mod 64)] @ base64_encode rest)"

text \<open>
  The reader's side of the transfer encoding, used to state the round trip: the position
  of a character in the alphabet, the decoding of groups of four characters, and the
  removal of the line breaks.
\<close>

definition b64_index :: "char \<Rightarrow> nat" where
  "b64_index c = length (takeWhile (\<lambda>x. x \<noteq> c) base64_alphabet)"

fun base64_decode :: "string \<Rightarrow> byte list" where
  "base64_decode (c0 # c1 # c2 # c3 # rest) =
     (if c2 = CHR ''='' then
        [of_nat ((b64_index c0 * 64 + b64_index c1) div 16)]
      else if c3 = CHR ''='' then
        (let n = b64_index c0 * 4096 + b64_index c1 * 64 + b64_index c2
         in [of_nat (n div 1024), of_nat (n div 4 mod 256)])
      else
        (let n = b64_index c0 * 262144 + b64_index c1 * 4096 + b64_index c2 * 64 + b64_index c3
         in [of_nat (n div 65536), of_nat (n div 256 mod 256), of_nat (n mod 256)]
            @ base64_decode rest))"
| "base64_decode cs = []"

definition remove_line_breaks :: "string \<Rightarrow> string" where
  "remove_line_breaks s = filter (\<lambda>c. \<not> is_line_terminator c) s"

text \<open>\<^verbatim>\<open>buf.toString('hex')\<close>: two lower-case digits for each byte.\<close>

definition hex_digit :: "nat \<Rightarrow> char" where
  "hex_digit n = ''0123456789abcdef'' ! (n mod 16)"

definition hex_byte :: "byte \<Rightarrow> string" where
  "hex_byte b = [hex_digit (unat b div 16), hex_digit (unat b mod 16)]"

definition toString_hex :: "byte list \<Rightarrow> string" where
  "toString_hex bytes = concat (map hex_byte bytes)"

section \<open>The data model\<close>

record user =
  name :: "string option"
  email :: string

record attachment =
  filename :: string
  content :: string
  mimeType :: "string option"

record RET_policy =
  HEADERS :: "bool option"
  FULL :: "bool option"

record NOTIFY_policy =
  DELAY :: "bool option"
  FAILURE :: "bool option"
  SUCCESS :: "bool option"

record dsn_override =
  envelopeId :: "string option"
  RET :: "RET_policy option"
  NOTIFY :: "NOTIFY_policy option"

text \<open>
  \<^verbatim>\<open>string | User\<close> and \<^verbatim>\<open>string | string[] | User | User[]\<close>. A list may mix strings and
  users: \<^verbatim>\<open>toUsers\<close> looks at each element on its own.
\<close>

datatype address_input = Str string | Usr user

datatype recipients_input = One address_input | Many "address_input list"

text \<open>
  \<^verbatim>\<open>EmailOptions\<close> and the fields of \<^verbatim>\<open>Email\<close>, with the prefixes \<open>o_\<close> and \<open>e_\<close> (the two
  share their field names, and \<^verbatim>\<open>from\<close> and \<^verbatim>\<open>text\<close> are reserved words here). The
  object \<^verbatim>\<open>Record<string, string>\<close> is the list of its entries in the order of
  \<^verbatim>\<open>Object.entries\<close>; its keys are distinct. The field \<^verbatim>\<open>to\<close> is declared \<^verbatim>\<open>User[]\<close>, but the
  constructor stores what \<^verbatim>\<open>toUsers\<close> returns, which may be \<^verbatim>\<open>undefined\<close>. The promise
  \<^verbatim>\<open>sent\<close> and its two resolvers are left out: \<^verbatim>\<open>getEmailData\<close> never touches them.
\<close>

record EmailOptions =
  o_from :: address_input
  o_to :: recipients_input
  o_reply :: "address_input option"
  o_cc :: "recipients_input option"
  o_bcc :: "recipients_input option"
  o_subject :: string
  o_text :: "string option"
  o_html :: "string option"
  o_headers :: "(string \<times> string) list option"
  o_attachments :: "attachment list option"
  o_dsnOverride :: "dsn_override option"

record Email =
  e_from :: user
  e_to :: "user list option"
  e_reply :: "user option"
  e_cc :: "user list option"
  e_bcc :: "user list option"
  e_subject :: string
  e_text :: "string option"
  e_html :: "string option"
  e_dsnOverride :: "dsn_override option"
  e_attachments :: "attachment list option"
  e_headers :: "(string \<times> string) list"

text \<open>
  The two exceptions: the \<^verbatim>\<open>Error\<close> thrown by the constructor, and the \<^verbatim>\<open>TypeError\<close> of
  calling \<^verbatim>\<open>map\<close> on \<^verbatim>\<open>undefined\<close>.
\<close>

datatype error = ConstructionError | TypeError

text \<open>
  What \<^verbatim>\<open>getEmailData\<close> reads from outside: the clock at \<^verbatim>\<open>resolveHeader\<close>, the random
  UUID, the two draws of random bytes (28 each in the source), and the clock at each turn
  of the loop over the attachments.
\<close>

record env =
  now_header :: string
  randomUUID :: string
  randomBytes_mixed :: "byte list"
  randomBytes_alternative :: "byte list"
  now_attachment :: "nat \<Rightarrow> string"

section \<open>Construction\<close>

definition bare :: "string \<Rightarrow> user" where
  "bare s = \<lparr>name = None, email = s\<rparr>"

fun toUsers :: "recipients_input option \<Rightarrow> user list option" where
  "toUsers None = None"
| "toUsers (Some (One (Str s))) = (if s = [] then None else Some [bare s])"
| "toUsers (Some (Many us)) =
     Some (map (\<lambda>u. case u of Str s \<Rightarrow> bare s | Usr v \<Rightarrow> v) us)"
| "toUsers (Some (One (Usr v))) = Some [v]"

definition Email_new :: "EmailOptions \<Rightarrow> error + Email" where
  "Email_new options =
     (if \<not> truthy (o_text options) \<and> \<not> truthy (o_html options) then Inl ConstructionError
      else Inr \<lparr>
        e_from = (case o_from options of Str s \<Rightarrow> bare s | Usr v \<Rightarrow> v),
        e_to = toUsers (Some (o_to options)),
        e_reply = (case o_reply options of
                     None \<Rightarrow> None
                   | Some (Str s) \<Rightarrow> Some (bare s)
                   | Some (Usr v) \<Rightarrow> Some v),
        e_cc = toUsers (o_cc options),
        e_bcc = toUsers (o_bcc options),
        e_subject = o_subject options,
        e_text = o_text options,
        e_html = o_html options,
        e_dsnOverride = o_dsnOverride options,
        e_attachments = o_attachments options,
        e_headers = (case o_headers options of None \<Rightarrow> [] | Some h \<Rightarrow> h)\<rparr>)"

text \<open>The inputs for \<^verbatim>\<open>to\<close> that name at least one recipient.\<close>

definition nonempty_input :: "recipients_input \<Rightarrow> bool" where
  "nonempty_input r =
     (case r of One (Str s) \<Rightarrow> s \<noteq> [] | One (Usr v) \<Rightarrow> True | Many us \<Rightarrow> us \<noteq> [])"

section \<open>Boundaries and MIME types\<close>

definition unsafe_chars :: string where
  "unsafe_chars = [CHR ''<'', CHR ''>'', CHR ''@'', CHR '','', CHR '';'', CHR '':'', CHR 0x5C,
                   CHR ''/'', CHR ''['', CHR '']'', CHR ''?'', CHR ''='', CHR 0x22, CHR '' '']"

definition generateSafeBoundary :: "string \<Rightarrow> byte list \<Rightarrow> string" where
  "generateSafeBoundary prefix bytes =
     (let boundary = prefix @ toString_hex bytes
      in map (\<lambda>c. if c \<in> set unsafe_chars then CHR ''_'' else c) boundary)"

definition mimeTypes :: "(string \<times> string) list" where
  "mimeTypes =
     [(''txt'', ''text/plain''), (''html'', ''text/html''), (''csv'', ''text/csv''),
      (''pdf'', ''application/pdf''), (''png'', ''image/png''), (''jpg'', ''image/jpeg''),
      (''jpeg'', ''image/jpeg''), (''gif'', ''image/gif''), (''zip'', ''application/zip'')]"

text \<open>
  \<^verbatim>\<open>mimeTypes[key]\<close> also finds what the object literal inherits from \<^verbatim>\<open>Object.prototype\<close>.
  Only two inherited names are lower-case, so only they can be the result of
  \<^verbatim>\<open>toLowerCase\<close>; both values are truthy, and the table gives the text that the template
  literal of \<^verbatim>\<open>getEmailData\<close> prints for them.
\<close>

definition inherited_properties :: "(string \<times> string) list" where
  "inherited_properties =
     [(''constructor'', ''function Object() { [native code] }''),
      (''__proto__'', ''[object Object]'')]"

definition getMimeType :: "string \<Rightarrow> string" where
  "getMimeType fname =
     (let extension = toLowerCase (split_pop CHR ''.'' fname)
      in case map_of (mimeTypes @ inherited_properties)
                (if extension = [] then ''txt'' else extension) of
           Some t \<Rightarrow> t
         | None \<Rightarrow> ''application/octet-stream'')"

section \<open>Line wrapping\<close>

text \<open>
  The inner loop of \<^verbatim>\<open>wrapText\<close>,
  \<^verbatim>\<open>for (let i = 0; i < word.length; i += maxLength) lines.push(word.slice(i, i + maxLength))\<close>.
  With \<^verbatim>\<open>maxLength = 0\<close> it never ends: not returning is \<^term>\<open>None\<close>.
\<close>

partial_function (option) forced_split ::
  "nat \<Rightarrow> string \<Rightarrow> nat \<Rightarrow> string list \<Rightarrow> string list option" where
  "forced_split i word maxLength lines =
     (if i < length word
      then forced_split (i + maxLength) word maxLength (lines @ [take maxLength (drop i word)])
      else Some lines)"

declare forced_split.simps [code]

fun wrap_words ::
  "nat \<Rightarrow> string list \<Rightarrow> string list \<Rightarrow> string \<Rightarrow> (string list \<times> string) option" where
  "wrap_words maxLength [] lines currentLine = Some (lines, currentLine)"
| "wrap_words maxLength (word # words) lines currentLine =
     (if length word > maxLength then
        (case forced_split 0 word maxLength
                (if currentLine \<noteq> [] then lines @ [currentLine] else lines) of
           None \<Rightarrow> None
         | Some lines' \<Rightarrow> wrap_words maxLength words lines' [])
      else if length currentLine + length word + (if currentLine \<noteq> [] then 1 else 0)
              \<le> maxLength then
        wrap_words maxLength words lines
          (currentLine @ (if currentLine \<noteq> [] then '' '' else []) @ word)
      else wrap_words maxLength words (lines @ [currentLine]) word)"

definition wrapText :: "string \<Rightarrow> nat \<Rightarrow> string list option" where
  "wrapText text maxLength =
     (case wrap_words maxLength (match_nonspace text) [] [] of
        None \<Rightarrow> None
      | Some (lines, currentLine) \<Rightarrow>
          Some (if currentLine \<noteq> [] then lines @ [currentLine] else lines))"

text \<open>
  Cutting a word into pieces of a fixed size, the last one shorter: what the inner loop
  is meant to compute, and what it is compared with.
\<close>

function slices :: "nat \<Rightarrow> string \<Rightarrow> string list" where
  "slices n w = (if n = 0 \<or> w = [] then [] else take n w # slices n (drop n w))"
  by pat_completeness auto
termination
  by (relation "measure (\<lambda>(n, w). length w)") auto

declare slices.simps [simp del]

definition pieces :: "nat \<Rightarrow> string \<Rightarrow> string list" where
  "pieces n w = (if length w > n then slices n w else [w])"

section \<open>Headers\<close>

definition set_header :: "string \<Rightarrow> string \<Rightarrow> Email \<Rightarrow> Email" where
  "set_header key v this = this\<lparr>e_headers := AList.update key v (e_headers this)\<rparr>"

text \<open>The template \<^verbatim>\<open>`${user.name} <${user.email}>`\<close>, used when the name is truthy.\<close>

definition format_user :: "user \<Rightarrow> string" where
  "format_user u = (if truthy (name u)
                    then (case name u of Some n \<Rightarrow> n | None \<Rightarrow> []) @ '' <'' @ email u @ ''>''
                    else email u)"

definition resolveFrom :: "Email \<Rightarrow> Email" where
  "resolveFrom this = set_header ''From'' (format_user (e_from this)) this"

definition resolveTo :: "Email \<Rightarrow> error + Email" where
  "resolveTo this =
     (case e_to this of
        None \<Rightarrow> Inl TypeError
      | Some toList \<Rightarrow> Inr (set_header ''To'' (join '', '' (map format_user toList)) this))"

definition resolveReply :: "Email \<Rightarrow> Email" where
  "resolveReply this =
     (case e_reply this of
        None \<Rightarrow> this
      | Some r \<Rightarrow> set_header ''Reply-To'' (format_user r) this)"

definition resolveCC :: "Email \<Rightarrow> Email" where
  "resolveCC this =
     (case e_cc this of
        None \<Rightarrow> this
      | Some ccList \<Rightarrow> set_header ''CC'' (join '', '' (map format_user ccList)) this)"

text \<open>The assignment to \<^verbatim>\<open>this.headers['BCC']\<close> is commented out in the source.\<close>

definition resolveBCC :: "Email \<Rightarrow> Email" where
  "resolveBCC this =
     (case e_bcc this of
        None \<Rightarrow> this
      | Some bccList \<Rightarrow> (let bccAddresses = map format_user bccList in this))"

definition resolveSubject :: "Email \<Rightarrow> Email" where
  "resolveSubject this =
     set_header ''Subject'' (''=?utf-8?b?'' @ base64_encode (utf8 (e_subject this)) @ ''?='') this"

definition generated_id :: "env \<Rightarrow> Email \<Rightarrow> string" where
  "generated_id e this =
     ''<'' @ randomUUID e @ ''@'' @ split_pop CHR ''@'' (email (e_from this)) @ ''>''"

text \<open>
  \<^verbatim>\<open>resolveHeader\<close> returns the object as it has left it and the exception, if any:
  \<^verbatim>\<open>resolveTo\<close> throws after \<^verbatim>\<open>resolveFrom\<close> has written \<^verbatim>\<open>From\<close>.
\<close>

definition resolveHeader :: "env \<Rightarrow> Email \<Rightarrow> Email \<times> error option" where
  "resolveHeader e this =
     (let this1 = resolveFrom this
      in case resolveTo this1 of
           Inl err \<Rightarrow> (this1, Some err)
         | Inr this2 \<Rightarrow>
             (let this3 = resolveSubject (resolveBCC (resolveCC (resolveReply this2)));
                  this4 = set_header ''Date'' (now_header e) this3;
                  this5 = set_header ''Message-ID''
                            (if truthy (map_of (e_headers this4) ''Message-ID'')
                             then (case map_of (e_headers this4) ''Message-ID'' of
                                     Some v \<Rightarrow> v | None \<Rightarrow> [])
                             else generated_id e this4)
                            this4
              in (this5, None)))"

section \<open>The payload\<close>

definition attachment_part :: "string \<Rightarrow> string \<Rightarrow> attachment \<Rightarrow> string" where
  "attachment_part mixedBoundary now a =
     (let mime = (if truthy (mimeType a)
                  then (case mimeType a of Some t \<Rightarrow> t | None \<Rightarrow> [])
                  else getMimeType (filename a));
          emailData = ''--'' @ mixedBoundary @ CRLF;
          emailData = emailData @ ''Content-Type: '' @ mime @ ''; name='' @ DQ @ filename a @ DQ @ CRLF;
          emailData = emailData @ ''Content-Description: '' @ filename a @ CRLF;
          emailData = emailData @ ''Content-Disposition: attachment; filename='' @ DQ @ filename a
                      @ DQ @ '';'' @ CRLF;
          emailData = emailData @ ''    creation-date='' @ DQ @ now @ DQ @ '';'' @ CRLF;
          emailData = emailData @ ''Content-Transfer-Encoding: base64'' @ CRLF @ CRLF;
          lines = match_dot 72 (content a);
          emailData = emailData @ (if lines \<noteq> [] then join CRLF lines else content a)
      in emailData @ CRLF @ CRLF)"

fun attachments_loop ::
  "string \<Rightarrow> (nat \<Rightarrow> string) \<Rightarrow> nat \<Rightarrow> attachment list \<Rightarrow> string \<Rightarrow> string" where
  "attachments_loop mixedBoundary now i [] emailData = emailData"
| "attachments_loop mixedBoundary now i (a # rest) emailData =
     attachments_loop mixedBoundary now (Suc i) rest
       (emailData @ attachment_part mixedBoundary (now i) a)"

definition text_block :: "string \<Rightarrow> string option \<Rightarrow> string option" where
  "text_block alternativeBoundary txt =
     (if truthy txt then
        (case wrapText (case txt of Some t \<Rightarrow> t | None \<Rightarrow> []) 998 of
           None \<Rightarrow> None
         | Some lines \<Rightarrow>
             Some (''--'' @ alternativeBoundary @ CRLF
                   @ ''Content-Type: text/plain; charset='' @ DQ @ ''utf-8'' @ DQ @ CRLF @ CRLF
                   @ join CRLF lines @ CRLF @ CRLF))
      else Some [])"

definition html_block :: "string \<Rightarrow> string option \<Rightarrow> string option" where
  "html_block alternativeBoundary htm =
     (if truthy htm then
        (case wrapText (base64_encode (utf8 (case htm of Some h \<Rightarrow> h | None \<Rightarrow> []))) 76 of
           None \<Rightarrow> None
         | Some lines \<Rightarrow>
             Some (''--'' @ alternativeBoundary @ CRLF
                   @ ''Content-Type: text/html; charset='' @ DQ @ ''utf-8'' @ DQ @ CRLF
                   @ ''Content-Transfer-Encoding: base64'' @ CRLF @ CRLF
                   @ join CRLF lines @ CRLF @ CRLF))
      else Some [])"

text \<open>
  \<^verbatim>\<open>getEmailData\<close>: the object after the call, and the exception or the returned string;
  \<^term>\<open>None\<close> if the call does not return.
\<close>

definition getEmailData :: "env \<Rightarrow> Email \<Rightarrow> (Email \<times> (error + string)) option" where
  "getEmailData e this =
     (case resolveHeader e this of
        (this', Some err) \<Rightarrow> Some (this', Inl err)
      | (this', None) \<Rightarrow>
          (let headersArray = ''MIME-Version: 1.0''
                 # map (\<lambda>(key, v). key @ '': '' @ v) (e_headers this');
               mixedBoundary = generateSafeBoundary ''mixed_'' (randomBytes_mixed e);
               alternativeBoundary =
                 generateSafeBoundary ''alternative_'' (randomBytes_alternative e);
               headersArray = headersArray
                 @ [''Content-Type: multipart/mixed; boundary='' @ DQ @ mixedBoundary @ DQ];
               headers = join CRLF headersArray;
               emailData = headers @ CRLF @ CRLF;
               emailData = emailData @ ''--'' @ mixedBoundary @ CRLF;
               emailData = emailData @ ''Content-Type: multipart/alternative; boundary='' @ DQ
                           @ alternativeBoundary @ DQ @ CRLF @ CRLF
           in case text_block alternativeBoundary (e_text this') of
                None \<Rightarrow> None
              | Some textPart \<Rightarrow>
                  (case html_block alternativeBoundary (e_html this') of
                     None \<Rightarrow> None
                   | Some htmlPart \<Rightarrow>
                       (let emailData = emailData @ textPart @ htmlPart;
                            emailData = emailData @ ''--'' @ alternativeBoundary @ ''--'' @ CRLF;
                            emailData = attachments_loop mixedBoundary (now_attachment e) 0
                                          (case e_attachments this' of None \<Rightarrow> [] | Some as \<Rightarrow> as)
                                          emailData
                        in Some (this', Inr (emailData @ ''--'' @ mixedBoundary @ ''--'' @ CRLF
                                             @ ''.'' @ CRLF))))))"


section \<open>The payload, part by part\<close>

text \<open>
  The vocabulary of the statements about the payload: the header map that \<^verbatim>\<open>resolveHeader\<close>
  leaves in the object, the reserved keys, a header line, the two delimiters of a boundary,
  the two body parts of the alternative block, the part of an attachment, and the whole
  payload put together from its parts. \<^term>\<open>payload\<close> is compared with what
  \<^term>\<open>getEmailData\<close> accumulates. The name of a header line is what precedes its first
  colon.
\<close>

definition headers_after :: "env \<Rightarrow> Email \<Rightarrow> (string \<times> string) list" where
  "headers_after e this = e_headers (fst (resolveHeader e this))"

definition reserved_keys :: "string list" where
  "reserved_keys = [''From'', ''To'', ''Reply-To'', ''CC'', ''Subject'', ''Date'', ''Message-ID'']"

definition header_line :: "string \<times> string \<Rightarrow> string" where
  "header_line kv = fst kv @ '': '' @ snd kv"

definition header_name :: "string \<Rightarrow> string" where
  "header_name line = takeWhile (\<lambda>c. c \<noteq> CHR '':'') line"

definition delimiter :: "string \<Rightarrow> string" where
  "delimiter boundary = ''--'' @ boundary @ CRLF"

definition close_delimiter :: "string \<Rightarrow> string" where
  "close_delimiter boundary = ''--'' @ boundary @ ''--'' @ CRLF"

definition text_subpart :: "string list \<Rightarrow> string" where
  "text_subpart lines =
     ''Content-Type: text/plain; charset='' @ DQ @ ''utf-8'' @ DQ @ CRLF @ CRLF
     @ join CRLF lines @ CRLF @ CRLF"

definition html_subpart :: "string list \<Rightarrow> string" where
  "html_subpart lines =
     ''Content-Type: text/html; charset='' @ DQ @ ''utf-8'' @ DQ @ CRLF
     @ ''Content-Transfer-Encoding: base64'' @ CRLF @ CRLF
     @ join CRLF lines @ CRLF @ CRLF"

definition the_string :: "string option \<Rightarrow> string" where
  "the_string s = (case s of Some t \<Rightarrow> t | None \<Rightarrow> [])"

definition attachment_subpart :: "string \<Rightarrow> attachment \<Rightarrow> string" where
  "attachment_subpart now a =
     ''Content-Type: ''
       @ (if truthy (mimeType a) then the_string (mimeType a) else getMimeType (filename a))
       @ ''; name='' @ DQ @ filename a @ DQ @ CRLF
     @ ''Content-Description: '' @ filename a @ CRLF
     @ ''Content-Disposition: attachment; filename='' @ DQ @ filename a @ DQ @ '';'' @ CRLF
     @ ''    creation-date='' @ DQ @ now @ DQ @ '';'' @ CRLF
     @ ''Content-Transfer-Encoding: base64'' @ CRLF @ CRLF
     @ (if match_dot 72 (content a) = [] then content a
        else join CRLF (match_dot 72 (content a)))
     @ CRLF @ CRLF"

definition header_block :: "env \<Rightarrow> Email \<Rightarrow> string" where
  "header_block e this =
     join CRLF ([''MIME-Version: 1.0''] @ map header_line (e_headers this)
                @ [''Content-Type: multipart/mixed; boundary='' @ DQ
                   @ generateSafeBoundary ''mixed_'' (randomBytes_mixed e) @ DQ])"

definition mime_body :: "env \<Rightarrow> Email \<Rightarrow> string list \<Rightarrow> string list \<Rightarrow> string" where
  "mime_body e this textLines htmlLines =
     (let mixed = generateSafeBoundary ''mixed_'' (randomBytes_mixed e);
          alternative = generateSafeBoundary ''alternative_'' (randomBytes_alternative e)
      in delimiter mixed
         @ ''Content-Type: multipart/alternative; boundary='' @ DQ @ alternative @ DQ @ CRLF @ CRLF
         @ concat (map (\<lambda>part. delimiter alternative @ part)
             ((if truthy (e_text this) then [text_subpart textLines] else [])
              @ (if truthy (e_html this) then [html_subpart htmlLines] else [])))
         @ close_delimiter alternative
         @ concat (map (\<lambda>(i, a). delimiter mixed @ attachment_subpart (now_attachment e i) a)
             (enumerate 0 (case e_attachments this of None \<Rightarrow> [] | Some as \<Rightarrow> as)))
         @ close_delimiter mixed @ ''.'' @ CRLF)"

definition payload :: "env \<Rightarrow> Email \<Rightarrow> string list \<Rightarrow> string list \<Rightarrow> string" where
  "payload e this textLines htmlLines =
     header_block e this @ CRLF @ CRLF @ mime_body e this textLines htmlLines"

section \<open>Example inputs\<close>

definition example_env :: env where
  "example_env = \<lparr>
     now_header = ''Tue, 03 Nov 2026 10:00:00 GMT'',
     randomUUID = ''123e4567-e89b-42d3-a456-426614174000'',
     randomBytes_mixed = [0x00, 0x1f, 0xab],
     randomBytes_alternative = [0x00, 0x1f, 0xab],
     now_attachment = (\<lambda>i. ''Tue, 03 Nov 2026 10:00:01 GMT'')\<rparr>"

definition example_options :: EmailOptions where
  "example_options = \<lparr>
     o_from = Str ''a@example.com'',
     o_to = One (Str ''b@example.com''),
     o_reply = None,
     o_cc = None,
     o_bcc = None,
     o_subject = ''Hi'',
     o_text = Some ''hello'',
     o_html = None,
     o_headers = None,
     o_attachments = None,
     o_dsnOverride = None\<rparr>"

definition example_email :: Email where
  "example_email = \<lparr>
     e_from = bare ''a@example.com'',
     e_to = Some [bare ''b@example.com''],
     e_reply = None,
     e_cc = None,
     e_bcc = None,
     e_subject = ''Hi'',
     e_text = Some ''hello'',
     e_html = None,
     e_dsnOverride = None,
     e_attachments = None,
     e_headers = []\<rparr>"

definition example_env2 :: env where
  "example_env2 = \<lparr>
     now_header = ''Wed, 04 Nov 2026 08:30:00 GMT'',
     randomUUID = ''9b2d1f06-7c1e-4a57-8d64-0c5a3e1f2b77'',
     randomBytes_mixed = [0xff, 0x10],
     randomBytes_alternative = [0x07, 0xc2],
     now_attachment = (\<lambda>i. ''Wed, 04 Nov 2026 08:30:01 GMT'')\<rparr>"

definition example_bcc :: Email where
  "example_bcc = example_email\<lparr>e_bcc := Some [bare ''hidden@example.com'']\<rparr>"

definition example_bcc_header :: Email where
  "example_bcc_header = example_email\<lparr>
     e_bcc := Some [bare ''hidden@example.com''],
     e_headers := [(''BCC'', ''hidden@example.com'')]\<rparr>"

definition example_custom :: Email where
  "example_custom = example_email\<lparr>
     e_to := Some [bare ''b@example.com'', \<lparr>name = Some ''Cy'', email = ''c@example.com''\<rparr>],
     e_reply := Some \<lparr>name = Some ''Rep'', email = ''r@example.com''\<rparr>,
     e_cc := Some [bare ''d@example.com'', bare ''e@example.com''],
     e_headers := [(''X-Tag'', ''t1''), (''From'', ''spoof@example.org''),
                   (''Reply-To'', ''other@example.org''), (''Message-ID'', ''<custom@id>'')]\<rparr>"

definition example_reply_header :: Email where
  "example_reply_header = example_email\<lparr>e_headers := [(''Reply-To'', ''other@example.org'')]\<rparr>"

text \<open>
  A clock that moves on between the attachments, and two calls with their own clock, UUID
  and random bytes.
\<close>

definition first_call_env :: env where
  "first_call_env = \<lparr>
     now_header = ''Tue, 03 Nov 2026 10:00:00 GMT'',
     randomUUID = ''123e4567-e89b-42d3-a456-426614174000'',
     randomBytes_mixed = [0x00, 0x1f, 0xab],
     randomBytes_alternative = [0xc4, 0x05, 0x9e],
     now_attachment = (\<lambda>i. if i = 0 then ''Tue, 03 Nov 2026 10:00:01 GMT''
                            else ''Tue, 03 Nov 2026 10:00:02 GMT'')\<rparr>"

definition second_call_env :: env where
  "second_call_env = \<lparr>
     now_header = ''Wed, 04 Nov 2026 08:30:00 GMT'',
     randomUUID = ''9b2d1f06-7c1e-4a57-8d64-0c5a3e1f2b77'',
     randomBytes_mixed = [0xff, 0x10, 0x3c],
     randomBytes_alternative = [0x07, 0xc2, 0x55],
     now_attachment = (\<lambda>i. if i = 0 then ''Wed, 04 Nov 2026 08:30:01 GMT''
                            else ''Wed, 04 Nov 2026 08:30:02 GMT'')\<rparr>"

text \<open>
  An attachment without a \<^verbatim>\<open>mimeType\<close>, and one with a \<^verbatim>\<open>mimeType\<close> and 80 characters of
  content.
\<close>

definition example_pdf :: attachment where
  "example_pdf = \<lparr>filename = ''a.pdf'', content = ''JVBERi0xLjQK'', mimeType = None\<rparr>"

definition example_notes :: attachment where
  "example_notes = \<lparr>
     filename = ''notes'',
     content = ''MDEyMzQ1Njc4OTAxMjM0NTY3ODkwMTIzNDU2Nzg5MDEyMzQ1Njc4OTAxMjM0NTY3ODkwMTIzNDU2Nzg5'',
     mimeType = Some ''text/x-notes''\<rparr>"

text \<open>
  An \<^verbatim>\<open>Email\<close> with names, two recipients, a \<^verbatim>\<open>reply\<close>, a \<^verbatim>\<open>cc\<close>, a subject and a body in
  HTML with the code unit \<open>0xE9\<close> (e acute), both bodies, two attachments and a custom
  header.
\<close>

definition example_full :: Email where
  "example_full = \<lparr>
     e_from = \<lparr>name = Some ''Ann'', email = ''a@example.com''\<rparr>,
     e_to = Some [bare ''b@example.com'', \<lparr>name = Some ''Cy'', email = ''c@example.com''\<rparr>],
     e_reply = Some (bare ''r@example.com''),
     e_cc = Some [bare ''d@example.com''],
     e_bcc = None,
     e_subject = ''Caf'' @ [CHR 0xE9],
     e_text = Some ''hello world'',
     e_html = Some (''<p>h'' @ [CHR 0xE9] @ ''</p>''),
     e_dsnOverride = None,
     e_attachments = Some [example_pdf, example_notes],
     e_headers = [(''X-Tag'', ''t1'')]\<rparr>"

text \<open>
  What follows the header block in the payload of that \<^verbatim>\<open>Email\<close>, given the two boundaries
  and the creation dates of the two attachments.
\<close>

definition example_full_body :: "string \<Rightarrow> string \<Rightarrow> string \<Rightarrow> string \<Rightarrow> string" where
  "example_full_body M A date0 date1 =
     ''--'' @ M @ CRLF
     @ ''Content-Type: multipart/alternative; boundary='' @ DQ @ A @ DQ @ CRLF
     @ CRLF
     @ ''--'' @ A @ CRLF
     @ ''Content-Type: text/plain; charset='' @ DQ @ ''utf-8'' @ DQ @ CRLF
     @ CRLF
     @ ''hello world'' @ CRLF
     @ CRLF
     @ ''--'' @ A @ CRLF
     @ ''Content-Type: text/html; charset='' @ DQ @ ''utf-8'' @ DQ @ CRLF
     @ ''Content-Transfer-Encoding: base64'' @ CRLF
     @ CRLF
     @ ''PHA+aMOpPC9wPg=='' @ CRLF
     @ CRLF
     @ ''--'' @ A @ ''--'' @ CRLF
     @ ''--'' @ M @ CRLF
     @ ''Content-Type: application/pdf; name='' @ DQ @ ''a.pdf'' @ DQ @ CRLF
     @ ''Content-Description: a.pdf'' @ CRLF
     @ ''Content-Disposition: attachment; filename='' @ DQ @ ''a.pdf'' @ DQ @ '';'' @ CRLF
     @ ''    creation-date='' @ DQ @ date0 @ DQ @ '';'' @ CRLF
     @ ''Content-Transfer-Encoding: base64'' @ CRLF
     @ CRLF
     @ ''JVBERi0xLjQK'' @ CRLF
     @ CRLF
     @ ''--'' @ M @ CRLF
     @ ''Content-Type: text/x-notes; name='' @ DQ @ ''notes'' @ DQ @ CRLF
     @ ''Content-Description: notes'' @ CRLF
     @ ''Content-Disposition: attachment; filename='' @ DQ @ ''notes'' @ DQ @ '';'' @ CRLF
     @ ''    creation-date='' @ DQ @ date1 @ DQ @ '';'' @ CRLF
     @ ''Content-Transfer-Encoding: base64'' @ CRLF
     @ CRLF
     @ ''MDEyMzQ1Njc4OTAxMjM0NTY3ODkwMTIzNDU2Nzg5MDEyMzQ1Njc4OTAxMjM0NTY3ODkwMTIz'' @ CRLF
     @ ''NDU2Nzg5'' @ CRLF
     @ CRLF
     @ ''--'' @ M @ ''--'' @ CRLF
     @ ''.'' @ CRLF"


section \<open>Line wrapping: the inner loop, the words, the lines\<close>

lemma concat_slices: "0 < n \<Longrightarrow> concat (slices n w) = w"
proof (induction n w rule: slices.induct)
  case (1 n w)
  then show ?case
    by (cases "w = []") (simp_all add: slices.simps [of n w] slices.simps [of n "[]"])
qed

lemma concat_map_single: "\<forall>x\<in>set xs. f x = [x] \<Longrightarrow> concat (map f xs) = xs"
  by (induction xs) simp_all

lemma slices_elem:
  "l \<in> set (slices n w) \<Longrightarrow> l \<noteq> [] \<and> length l \<le> n \<and> set l \<subseteq> set w"
proof (induction n w rule: slices.induct)
  case (1 n w)
  show ?case
  proof (cases "n = 0 \<or> w = []")
    case True
    with "1.prems" show ?thesis
      by (simp add: slices.simps [of n w])
  next
    case False
    with "1.prems" have "l = take n w \<or> l \<in> set (slices n (drop n w))"
      by (simp add: slices.simps [of n w])
    then show ?thesis
    proof
      assume "l = take n w"
      with False show ?thesis
        by (auto dest: in_set_takeD)
    next
      assume "l \<in> set (slices n (drop n w))"
      with "1.IH" False have "l \<noteq> [] \<and> length l \<le> n \<and> set l \<subseteq> set (drop n w)"
        by blast
      then show ?thesis
        by (auto dest: in_set_dropD)
    qed
  qed
qed

lemma forced_split_pos:
  "0 < n \<Longrightarrow> forced_split i w n ls = Some (ls @ slices n (drop i w))"
proof (induction "length w - i" arbitrary: i ls rule: less_induct)
  case less
  show ?case
  proof (cases "i < length w")
    case True
    with less.prems have "length w - (i + n) < length w - i"
      by arith
    from less.hyps [OF this less.prems]
    have "forced_split (i + n) w n (ls @ [take n (drop i w)])
          = Some ((ls @ [take n (drop i w)]) @ slices n (drop (i + n) w))" .
    moreover from True less.prems
    have "slices n (drop i w) = take n (drop i w) # slices n (drop (i + n) w)"
      by (simp add: slices.simps [of n "drop i w"] add.commute)
    ultimately show ?thesis
      using True by (subst forced_split.simps) simp
  next
    case False
    then show ?thesis
      by (subst forced_split.simps) (simp add: slices.simps [of n "[]"])
  qed
qed


lemma mnf_word:
  "\<forall>c\<in>set w. \<not> is_space c \<Longrightarrow>
   match_nonspace_from run (w @ rest) = match_nonspace_from (run @ w) rest"
  by (induction w arbitrary: run) simp_all

lemma mnf_space:
  "is_space c \<Longrightarrow>
   match_nonspace_from run (a @ c # b) = match_nonspace_from run a @ match_nonspace_from [] b"
  by (induction a arbitrary: run) simp_all

lemma match_nonspace_word:
  "w \<noteq> [] \<Longrightarrow> \<forall>c\<in>set w. \<not> is_space c \<Longrightarrow> match_nonspace w = [w]"
  using mnf_word [of w "[]" "[]"] by (simp add: match_nonspace_def)

lemma match_nonspace_Nil: "match_nonspace [] = []"
  by (simp add: match_nonspace_def)

lemma match_nonspace_join:
  "w \<noteq> [] \<Longrightarrow> \<forall>c\<in>set w. \<not> is_space c \<Longrightarrow>
   match_nonspace (cur @ '' '' @ w) = match_nonspace cur @ [w]"
proof -
  assume w: "w \<noteq> []" "\<forall>c\<in>set w. \<not> is_space c"
  have sp: "is_space CHR '' ''"
    by (simp add: is_space_def)
  have "match_nonspace (cur @ CHR '' '' # w) = match_nonspace cur @ match_nonspace w"
    unfolding match_nonspace_def by (rule mnf_space [OF sp])
  with w show ?thesis
    by (simp add: match_nonspace_word)
qed

lemma mnf_words:
  "w \<in> set (match_nonspace_from run t) \<Longrightarrow> \<forall>c\<in>set run. \<not> is_space c \<Longrightarrow>
   w \<noteq> [] \<and> (\<forall>c\<in>set w. \<not> is_space c)"
proof (induction t arbitrary: run)
  case Nil
  then show ?case
    by (simp split: if_splits)
next
  case (Cons a t)
  show ?case
  proof (cases "is_space a")
    case True
    with Cons.prems(1) have "(run \<noteq> [] \<and> w = run) \<or> w \<in> set (match_nonspace_from [] t)"
      by (simp split: if_splits)
    then show ?thesis
    proof
      assume "run \<noteq> [] \<and> w = run"
      with Cons.prems(2) show ?thesis by simp
    next
      assume "w \<in> set (match_nonspace_from [] t)"
      from Cons.IH [OF this] show ?thesis by simp
    qed
  next
    case False
    with Cons.prems(1) have "w \<in> set (match_nonspace_from (run @ [a]) t)"
      by simp
    moreover from False Cons.prems(2) have "\<forall>c\<in>set (run @ [a]). \<not> is_space c"
      by simp
    ultimately show ?thesis
      by (rule Cons.IH)
  qed
qed

lemma match_nonspace_words:
  "w \<in> set (match_nonspace t) \<Longrightarrow> w \<noteq> [] \<and> (\<forall>c\<in>set w. \<not> is_space c)"
  using mnf_words [of w "[]" t] by (simp add: match_nonspace_def)


lemma match_nonspace_slices:
  assumes "\<forall>c\<in>set w. \<not> is_space c"
  shows "concat (map match_nonspace (slices n w)) = slices n w"
proof -
  have "\<forall>l\<in>set (slices n w). match_nonspace l = [l]"
  proof
    fix l assume "l \<in> set (slices n w)"
    from slices_elem [OF this] assms show "match_nonspace l = [l]"
      by (auto intro: match_nonspace_word)
  qed
  then show ?thesis
    by (rule concat_map_single)
qed

lemma wrap_words_ok:
  assumes "0 < n" and "\<forall>w\<in>set ws. w \<noteq> [] \<and> (\<forall>c\<in>set w. \<not> is_space c)"
  shows "\<exists>lines' cur'. wrap_words n ws lines cur = Some (lines', cur')
      \<and> concat (map match_nonspace (lines' @ [cur']))
          = concat (map match_nonspace (lines @ [cur])) @ concat (map (pieces n) ws)
      \<and> ((\<forall>l\<in>set (lines @ [cur]). length l \<le> n) \<longrightarrow> (\<forall>l\<in>set (lines' @ [cur']). length l \<le> n))"
  using assms(2)
proof (induction ws arbitrary: lines cur)
  case Nil
  then show ?case by simp
next
  case (Cons w ws)
  then have w: "w \<noteq> []" "\<forall>c\<in>set w. \<not> is_space c"
    and ws: "\<forall>w\<in>set ws. w \<noteq> [] \<and> (\<forall>c\<in>set w. \<not> is_space c)"
    by simp_all
  note IH = Cons.IH [OF ws]
  consider (long) "length w > n"
    | (fits) "\<not> length w > n" "length cur + length w + (if cur \<noteq> [] then 1 else 0) \<le> n"
    | (break) "\<not> length w > n" "\<not> length cur + length w + (if cur \<noteq> [] then 1 else 0) \<le> n"
    by blast
  then show ?case
  proof cases
    case long
    let ?L = "(if cur \<noteq> [] then lines @ [cur] else lines) @ slices n w"
    from IH [of ?L "[]"] obtain lines' cur' where
      r: "wrap_words n ws ?L [] = Some (lines', cur')"
      and c: "concat (map match_nonspace (lines' @ [cur']))
          = concat (map match_nonspace (?L @ [[]])) @ concat (map (pieces n) ws)"
      and l: "(\<forall>l\<in>set (?L @ [[]]). length l \<le> n) \<longrightarrow> (\<forall>l\<in>set (lines' @ [cur']). length l \<le> n)"
      by blast
    have 1: "wrap_words n (w # ws) lines cur = Some (lines', cur')"
      using long r by (simp add: forced_split_pos [OF assms(1)])
    have 2: "concat (map match_nonspace (?L @ [[]]))
             = concat (map match_nonspace (lines @ [cur])) @ pieces n w"
      using long w by (simp add: match_nonspace_slices match_nonspace_Nil pieces_def)
    have 3: "(\<forall>l\<in>set (lines @ [cur]). length l \<le> n) \<longrightarrow> (\<forall>l\<in>set (?L @ [[]]). length l \<le> n)"
      by (auto dest: slices_elem)
    have "concat (map match_nonspace (lines' @ [cur']))
          = concat (map match_nonspace (lines @ [cur])) @ concat (map (pieces n) (w # ws))"
      unfolding c 2 by simp
    moreover from l 3
    have "(\<forall>l\<in>set (lines @ [cur]). length l \<le> n) \<longrightarrow> (\<forall>l\<in>set (lines' @ [cur']). length l \<le> n)"
      by blast
    ultimately show ?thesis
      using 1 by blast
  next
    case fits
    let ?C = "cur @ (if cur \<noteq> [] then '' '' else []) @ w"
    from IH [of lines ?C] obtain lines' cur' where
      r: "wrap_words n ws lines ?C = Some (lines', cur')"
      and c: "concat (map match_nonspace (lines' @ [cur']))
          = concat (map match_nonspace (lines @ [?C])) @ concat (map (pieces n) ws)"
      and l: "(\<forall>l\<in>set (lines @ [?C]). length l \<le> n) \<longrightarrow> (\<forall>l\<in>set (lines' @ [cur']). length l \<le> n)"
      by blast
    have 1: "wrap_words n (w # ws) lines cur = Some (lines', cur')"
      using fits r by simp
    have "match_nonspace ?C = match_nonspace cur @ [w]"
      using w match_nonspace_join [OF w, of cur]
      by (simp add: match_nonspace_word match_nonspace_Nil)
    then have 2: "concat (map match_nonspace (lines @ [?C]))
             = concat (map match_nonspace (lines @ [cur])) @ pieces n w"
      using fits by (simp add: pieces_def)
    have 3: "(\<forall>l\<in>set (lines @ [cur]). length l \<le> n) \<longrightarrow> (\<forall>l\<in>set (lines @ [?C]). length l \<le> n)"
      using fits by auto
    have "concat (map match_nonspace (lines' @ [cur']))
          = concat (map match_nonspace (lines @ [cur])) @ concat (map (pieces n) (w # ws))"
      unfolding c 2 by simp
    moreover from l 3
    have "(\<forall>l\<in>set (lines @ [cur]). length l \<le> n) \<longrightarrow> (\<forall>l\<in>set (lines' @ [cur']). length l \<le> n)"
      by blast
    ultimately show ?thesis
      using 1 by blast
  next
    case break
    from IH [of "lines @ [cur]" w] obtain lines' cur' where
      r: "wrap_words n ws (lines @ [cur]) w = Some (lines', cur')"
      and c: "concat (map match_nonspace (lines' @ [cur']))
          = concat (map match_nonspace ((lines @ [cur]) @ [w])) @ concat (map (pieces n) ws)"
      and l: "(\<forall>l\<in>set ((lines @ [cur]) @ [w]). length l \<le> n) \<longrightarrow> (\<forall>l\<in>set (lines' @ [cur']). length l \<le> n)"
      by blast
    have 1: "wrap_words n (w # ws) lines cur = Some (lines', cur')"
      using break r by simp
    have 2: "concat (map match_nonspace ((lines @ [cur]) @ [w]))
             = concat (map match_nonspace (lines @ [cur])) @ pieces n w"
      using break w by (simp add: pieces_def match_nonspace_word)
    have 3: "(\<forall>l\<in>set (lines @ [cur]). length l \<le> n) \<longrightarrow> (\<forall>l\<in>set ((lines @ [cur]) @ [w]). length l \<le> n)"
      using break by auto
    have "concat (map match_nonspace (lines' @ [cur']))
          = concat (map match_nonspace (lines @ [cur])) @ concat (map (pieces n) (w # ws))"
      unfolding c 2 by simp
    moreover from l 3
    have "(\<forall>l\<in>set (lines @ [cur]). length l \<le> n) \<longrightarrow> (\<forall>l\<in>set (lines' @ [cur']). length l \<le> n)"
      by blast
    ultimately show ?thesis
      using 1 by blast
  qed
qed

lemma wrapText_ok:
  assumes "0 < n"
  shows "\<exists>lines. wrapText t n = Some lines
      \<and> (\<forall>l\<in>set lines. length l \<le> n)
      \<and> concat (map match_nonspace lines) = concat (map (pieces n) (match_nonspace t))"
proof -
  have "\<forall>w\<in>set (match_nonspace t). w \<noteq> [] \<and> (\<forall>c\<in>set w. \<not> is_space c)"
    using match_nonspace_words by blast
  from wrap_words_ok [OF assms this, of "[]" "[]"] obtain lines' cur' where
    r: "wrap_words n (match_nonspace t) [] [] = Some (lines', cur')"
    and c: "concat (map match_nonspace (lines' @ [cur']))
          = concat (map (pieces n) (match_nonspace t))"
    and l: "\<forall>l\<in>set (lines' @ [cur']). length l \<le> n"
    by (auto simp: match_nonspace_Nil)
  obtain ls where ls: "ls = (if cur' \<noteq> [] then lines' @ [cur'] else lines')"
    by simp
  have 1: "wrapText t n = Some ls"
    using r ls by (simp add: wrapText_def)
  have 2: "\<forall>l\<in>set ls. length l \<le> n"
    using l ls by auto
  have "concat (map match_nonspace ls) = concat (map match_nonspace (lines' @ [cur']))"
    using ls by (simp add: match_nonspace_Nil)
  with c have 3: "concat (map match_nonspace ls) = concat (map (pieces n) (match_nonspace t))"
    by simp
  from 1 2 3 show ?thesis
    by blast
qed

text \<open>With the limit 0 the inner loop does not end, so \<^verbatim>\<open>wrapText\<close> returns only for a text without words.\<close>

lemma forced_split_zero:
  assumes "forced_split i w n ls = Some y"
  shows "n = 0 \<longrightarrow> \<not> i < length w"
proof (rule forced_split.raw_induct
    [where P = "\<lambda>i w n ls y. n = 0 \<longrightarrow> \<not> i < length w", OF _ assms])
  fix f :: "nat \<Rightarrow> string \<Rightarrow> nat \<Rightarrow> string list \<Rightarrow> string list option"
    and i w n ls y
  assume IH: "\<And>i w n ls y. f i w n ls = Some y \<Longrightarrow> n = 0 \<longrightarrow> \<not> i < length w"
    and eq: "(if i < length w then f (i + n) w n (ls @ [take n (drop i w)]) else Some ls)
             = Some y"
  show "n = 0 \<longrightarrow> \<not> i < length w"
  proof (intro impI notI)
    assume "n = 0" "i < length w"
    with eq have "f i w 0 (ls @ [take 0 (drop i w)]) = Some y"
      by simp
    from IH [OF this] \<open>i < length w\<close> show False
      by simp
  qed
qed

lemma forced_split_diverges: "i < length w \<Longrightarrow> forced_split i w 0 ls = None"
  using forced_split_zero [of i w 0 ls] by (cases "forced_split i w 0 ls") auto

lemma wrapText_zero:
  "wrapText t 0 = (if match_nonspace t = [] then Some [] else None)"
proof (cases "match_nonspace t")
  case Nil
  then show ?thesis by (simp add: wrapText_def)
next
  case (Cons w ws)
  then have "w \<in> set (match_nonspace t)" by simp
  then have "w \<noteq> []" using match_nonspace_words by blast
  then show ?thesis
    using Cons by (simp add: wrapText_def forced_split_diverges)
qed

section \<open>UTF-8: decoding what was encoded\<close>





section \<open>Base64: decoding what was encoded\<close>

lemma length_base64_alphabet: "length base64_alphabet = 64"
  by (simp add: base64_alphabet_def)

lemma distinct_base64_alphabet: "distinct base64_alphabet"
  by (simp add: base64_alphabet_def)

lemma b64_char_in: "b64_char k \<in> set base64_alphabet"
  by (simp add: b64_char_def length_base64_alphabet)

lemma base64_alphabet_plain:
  "c \<in> set base64_alphabet \<Longrightarrow> c \<noteq> CHR ''='' \<and> \<not> is_space c \<and> \<not> is_line_terminator c"
  by (auto simp: base64_alphabet_def is_space_def is_line_terminator_def)

lemma b64_char_not_pad: "b64_char k \<noteq> CHR ''=''"
  using base64_alphabet_plain [OF b64_char_in] by simp

lemma index_nth_distinct:
  "distinct xs \<Longrightarrow> i < length xs \<Longrightarrow> length (takeWhile (\<lambda>x. x \<noteq> xs ! i) xs) = i"
proof -
  assume d: "distinct xs" and i: "i < length xs"
  have "takeWhile (\<lambda>x. x \<noteq> xs ! i) xs = take i xs"
  proof (rule takeWhile_eq_take_P_nth)
    fix j assume "j < i" "j < length xs"
    with d i show "xs ! j \<noteq> xs ! i"
      by (simp add: nth_eq_iff_index_eq)
  next
    show "\<not> xs ! i \<noteq> xs ! i" by simp
  qed
  with i show ?thesis by simp
qed

lemma b64_index_char: "b64_index (b64_char k) = k mod 64"
  unfolding b64_index_def b64_char_def
  by (rule index_nth_distinct [OF distinct_base64_alphabet]) (simp add: length_base64_alphabet)

lemma unat_byte: "unat (a :: byte) < 256"
  using unsigned_less [of a] by simp

lemma sextets1:
  fixes a :: nat
  assumes "a < 256"
  shows "a div 4 < 64" "a mod 4 * 16 < 64" "(a div 4 * 64 + a mod 4 * 16) div 16 = a"
proof -
  show "a div 4 < 64" using assms by simp
  show "a mod 4 * 16 < 64" by simp
  have "a = a div 4 * 4 + a mod 4"
    by simp
  then have "a div 4 * 64 + a mod 4 * 16 = a * 16"
    by linarith
  then show "(a div 4 * 64 + a mod 4 * 16) div 16 = a"
    by simp
qed

lemma sextets2:
  fixes n :: nat
  assumes "n < 65536"
  shows "n div 1024 < 64" "n div 16 mod 64 < 64" "n mod 16 * 4 < 64"
    "n div 1024 * 4096 + n div 16 mod 64 * 64 + n mod 16 * 4 = 4 * n"
proof -
  show "n div 1024 < 64" using assms by simp
  show "n div 16 mod 64 < 64" by simp
  show "n mod 16 * 4 < 64" by simp
  have e1: "n = n div 16 * 16 + n mod 16"
    by simp
  have "n div 16 div 64 = n div 1024"
    by (simp add: div_mult2_eq [symmetric])
  then have e2: "n div 16 = n div 1024 * 64 + n div 16 mod 64"
    using div_mult_mod_eq [of "n div 16" 64] by simp
  from e1 e2 show "n div 1024 * 4096 + n div 16 mod 64 * 64 + n mod 16 * 4 = 4 * n"
    by linarith
qed

lemma sextets3:
  fixes n :: nat
  assumes "n < 16777216"
  shows "n div 262144 < 64" "n div 4096 mod 64 < 64" "n div 64 mod 64 < 64" "n mod 64 < 64"
    "n div 262144 * 262144 + n div 4096 mod 64 * 4096 + n div 64 mod 64 * 64 + n mod 64 = n"
proof -
  show "n div 262144 < 64" using assms by simp
  show "n div 4096 mod 64 < 64" "n div 64 mod 64 < 64" "n mod 64 < 64" by simp_all
  have e1: "n = n div 64 * 64 + n mod 64"
    by simp
  have "n div 64 div 64 = n div 4096"
    by (simp add: div_mult2_eq [symmetric])
  then have e2: "n div 64 = n div 4096 * 64 + n div 64 mod 64"
    using div_mult_mod_eq [of "n div 64" 64] by simp
  have "n div 4096 div 64 = n div 262144"
    by (simp add: div_mult2_eq [symmetric])
  then have e3: "n div 4096 = n div 262144 * 64 + n div 4096 mod 64"
    using div_mult_mod_eq [of "n div 4096" 64] by simp
  from e1 e2 e3
  show "n div 262144 * 262144 + n div 4096 mod 64 * 4096 + n div 64 mod 64 * 64 + n mod 64 = n"
    by linarith
qed

lemma bytes2:
  fixes a b :: nat
  assumes "b < 256"
  shows "4 * (a * 256 + b) div 1024 = a" "4 * (a * 256 + b) div 4 mod 256 = b"
  using assms by simp_all

lemma bytes3:
  fixes a b c :: nat
  assumes "b < 256" "c < 256"
  shows "(a * 65536 + b * 256 + c) div 65536 = a"
    "(a * 65536 + b * 256 + c) div 256 mod 256 = b"
    "(a * 65536 + b * 256 + c) mod 256 = c"
proof -
  have e: "a * 65536 + b * 256 + c = (a * 256 + b) * 256 + c"
    by simp
  show "(a * 65536 + b * 256 + c) div 65536 = a"
    using assms by simp
  from assms(2) have d: "((a * 256 + b) * 256 + c) div 256 = a * 256 + b"
    by simp
  from assms(1) have "(a * 256 + b) mod 256 = b"
    by simp
  then show "(a * 65536 + b * 256 + c) div 256 mod 256 = b"
    by (simp only: e d)
  have "(k * 256 + c) mod 256 = c" for k :: nat
    using assms(2) by simp
  from this [of "a * 256 + b"] show "(a * 65536 + b * 256 + c) mod 256 = c"
    by (simp only: e)
qed

lemma b64_index_lt: "k < 64 \<Longrightarrow> b64_index (b64_char k) = k"
  by (simp add: b64_index_char)

lemma base64_decode_encode: "base64_decode (base64_encode bs) = bs"
proof (induction bs rule: base64_encode.induct)
  case 1
  show ?case by simp
next
  case (2 a)
  note s = sextets1 [OF unat_byte [of a]]
  have "base64_decode (base64_encode [a])
        = [of_nat ((unat a div 4 * 64 + unat a mod 4 * 16) div 16)]"
    by (simp add: Let_def b64_index_lt [OF s(1)] b64_index_lt [OF s(2)])
  then show ?case
    by (simp only: s(3)) simp
next
  case (3 a b)
  define n where "n = unat a * 256 + unat b"
  have "n < 65536"
    using unat_byte [of a] unat_byte [of b] by (simp add: n_def)
  note s = sextets2 [OF this]
  have enc: "base64_encode [a, b]
        = [b64_char (n div 1024), b64_char (n div 16 mod 64), b64_char (n mod 16 * 4), CHR ''='']"
    by (simp add: Let_def n_def)
  have "base64_decode (base64_encode [a, b])
        = (let m = n div 1024 * 4096 + n div 16 mod 64 * 64 + n mod 16 * 4
           in [of_nat (m div 1024), of_nat (m div 4 mod 256)])"
    unfolding enc
    by (simp add: b64_char_not_pad b64_index_lt [OF s(1)] b64_index_lt [OF s(2)]
          b64_index_lt [OF s(3)])
  also have "\<dots> = [of_nat (4 * n div 1024), of_nat (4 * n div 4 mod 256)]"
    by (simp only: s(4) Let_def)
  also have "\<dots> = [of_nat (unat a), of_nat (unat b)]"
    unfolding n_def by (simp only: bytes2 [OF unat_byte [of b]])
  finally show ?case
    by simp
next
  case (4 a b c rest)
  define n where "n = unat a * 65536 + unat b * 256 + unat c"
  have "n < 16777216"
    using unat_byte [of a] unat_byte [of b] unat_byte [of c] by (simp add: n_def)
  note s = sextets3 [OF this]
  have enc: "base64_encode (a # b # c # rest)
        = [b64_char (n div 262144), b64_char (n div 4096 mod 64), b64_char (n div 64 mod 64),
           b64_char (n mod 64)] @ base64_encode rest"
    by (simp add: Let_def n_def)
  have "base64_decode (base64_encode (a # b # c # rest))
        = (let m = n div 262144 * 262144 + n div 4096 mod 64 * 4096 + n div 64 mod 64 * 64
                   + n mod 64
           in [of_nat (m div 65536), of_nat (m div 256 mod 256), of_nat (m mod 256)]
              @ base64_decode (base64_encode rest))"
    unfolding enc
    by (simp add: b64_char_not_pad b64_index_lt [OF s(1)] b64_index_lt [OF s(2)]
          b64_index_lt [OF s(3)] b64_index_lt [OF s(4)])
  also have "\<dots> = [of_nat (n div 65536), of_nat (n div 256 mod 256), of_nat (n mod 256)] @ rest"
    by (simp only: s(5) Let_def "4.IH")
  also have "\<dots> = [of_nat (unat a), of_nat (unat b), of_nat (unat c)] @ rest"
    unfolding n_def by (simp only: bytes3 [OF unat_byte [of b] unat_byte [of c]])
  finally show ?case
    by simp
qed

lemma base64_encode_chars:
  "c \<in> set (base64_encode bs) \<Longrightarrow> \<not> is_space c \<and> \<not> is_line_terminator c"
proof (induction bs rule: base64_encode.induct)
  case 1
  then show ?case by simp
next
  case (2 a)
  have "\<not> is_space CHR ''='' \<and> \<not> is_line_terminator CHR ''=''"
    by (simp add: is_space_def is_line_terminator_def)
  with 2 show ?case
    using base64_alphabet_plain [OF b64_char_in] by (auto simp: Let_def)
next
  case (3 a b)
  have "\<not> is_space CHR ''='' \<and> \<not> is_line_terminator CHR ''=''"
    by (simp add: is_space_def is_line_terminator_def)
  with 3 show ?case
    using base64_alphabet_plain [OF b64_char_in] by (auto simp: Let_def)
next
  case (4 a b c rest)
  then show ?case
    using base64_alphabet_plain [OF b64_char_in] by (auto simp: Let_def)
qed

lemma wrapText_one_word:
  assumes n: "0 < n" and s: "\<forall>c\<in>set s. \<not> is_space c"
  shows "\<exists>lines. wrapText s n = Some lines \<and> concat lines = s \<and> (\<forall>l\<in>set lines. set l \<subseteq> set s)"
proof (cases "s = []")
  case True
  then show ?thesis
    by (simp add: wrapText_def match_nonspace_Nil)
next
  case False
  from False s have w: "match_nonspace s = [s]"
    by (rule match_nonspace_word)
  show ?thesis
  proof (cases "length s > n")
    case True
    then have "wrapText s n = Some (slices n s)"
      by (simp add: wrapText_def w forced_split_pos [OF n])
    then show ?thesis
      using concat_slices [OF n] slices_elem by blast
  next
    case False
    with \<open>s \<noteq> []\<close> have "wrapText s n = Some [s]"
      by (simp add: wrapText_def w)
    then show ?thesis by simp
  qed
qed

lemma remove_line_breaks_join:
  "\<forall>l\<in>set ls. \<forall>c\<in>set l. \<not> is_line_terminator c \<Longrightarrow>
   remove_line_breaks (join CRLF ls) = concat ls"
proof (induction CRLF ls rule: join.induct [case_names Nil One More])
  case Nil
  show ?case by (simp add: remove_line_breaks_def)
next
  case (One x)
  then show ?case by (simp add: remove_line_breaks_def)
next
  case (More x y ys)
  then have IH: "filter (\<lambda>c. \<not> is_line_terminator c) (join CRLF (y # ys)) = concat (y # ys)"
    by (simp add: remove_line_breaks_def)
  have x: "filter (\<lambda>c. \<not> is_line_terminator c) x = x"
    using More.prems by simp
  have t: "is_line_terminator (CHR 0x0D)" "is_line_terminator (CHR 0x0A)"
    by (simp_all add: is_line_terminator_def)
  show ?case
    unfolding remove_line_breaks_def join.simps filter_append IH x
    by (simp add: t)
qed

lemma html_round_trip:
  "\<exists>lines. wrapText (base64_encode (utf8 h)) 76 = Some lines
     \<and> base64_decode (remove_line_breaks (join CRLF lines)) = utf8 h"
proof -
  let ?s = "base64_encode (utf8 h)"
  have s: "\<forall>c\<in>set ?s. \<not> is_space c"
    using base64_encode_chars by blast
  from wrapText_one_word [OF _ s, of 76] obtain lines where
    l: "wrapText ?s 76 = Some lines" "concat lines = ?s" "\<forall>l\<in>set lines. set l \<subseteq> set ?s"
    by auto
  from l(3) have "\<forall>l\<in>set lines. \<forall>c\<in>set l. \<not> is_line_terminator c"
    using base64_encode_chars by blast
  then have "remove_line_breaks (join CRLF lines) = ?s"
    using l(2) by (simp add: remove_line_breaks_join)
  with l(1) show ?thesis
    by (simp add: base64_decode_encode)
qed

section \<open>The header map after \<^verbatim>\<open>resolveHeader\<close>\<close>

lemma resolveBCC_id: "resolveBCC this = this"
  by (cases "e_bcc this") (simp_all add: resolveBCC_def Let_def)

lemma map_of_update_other: "k' \<noteq> k \<Longrightarrow> map_of (AList.update k v al) k' = map_of al k'"
  by (simp add: AList.update_conv')

lemma map_of_update_same: "map_of (AList.update k v al) k = Some v"
  by (simp add: AList.update_conv')

lemma headers_after_None:
  assumes "e_to this = None"
  shows "resolveHeader e this
         = (this\<lparr>e_headers := AList.update ''From'' (format_user (e_from this)) (e_headers this)\<rparr>,
            Some TypeError)"
  using assms by (simp add: resolveHeader_def resolveFrom_def resolveTo_def set_header_def)

lemma resolveHeader_Some:
  assumes "e_to this = Some ts"
  shows "resolveHeader e this = (this\<lparr>e_headers := headers_after e this\<rparr>, None)"
  using assms
  by (cases "e_reply this"; cases "e_cc this")
     (simp_all add: headers_after_def resolveHeader_def resolveFrom_def resolveTo_def
        resolveReply_def resolveCC_def resolveBCC_id resolveSubject_def set_header_def Let_def)

lemma headers_after_eq:
  assumes "e_to this = Some ts"
  shows "headers_after e this =
     (let h2 = AList.update ''To'' (join '', '' (map format_user ts))
                 (AList.update ''From'' (format_user (e_from this)) (e_headers this));
          h3 = (case e_reply this of
                  None \<Rightarrow> h2
                | Some r \<Rightarrow> AList.update ''Reply-To'' (format_user r) h2);
          h4 = (case e_cc this of
                  None \<Rightarrow> h3
                | Some cs \<Rightarrow> AList.update ''CC'' (join '', '' (map format_user cs)) h3);
          h6 = AList.update ''Date'' (now_header e)
                 (AList.update ''Subject''
                    (''=?utf-8?b?'' @ base64_encode (utf8 (e_subject this)) @ ''?='') h4)
      in AList.update ''Message-ID''
           (if truthy (map_of h6 ''Message-ID'') then the_string (map_of h6 ''Message-ID'')
            else generated_id e this) h6)"
  using assms
  by (cases "e_reply this"; cases "e_cc this")
     (simp_all add: headers_after_def resolveHeader_def resolveFrom_def resolveTo_def
        resolveReply_def resolveCC_def resolveBCC_id resolveSubject_def set_header_def Let_def
        the_string_def generated_id_def)

lemma headers_after_bcc: "headers_after e (this\<lparr>e_bcc := b\<rparr>) = headers_after e this"
proof (cases "e_to this")
  case None
  then show ?thesis
    by (simp add: headers_after_def headers_after_None)
next
  case (Some ts)
  then have "e_to (this\<lparr>e_bcc := b\<rparr>) = Some ts"
    by simp
  moreover have "generated_id e (this\<lparr>e_bcc := b\<rparr>) = generated_id e this"
    by (simp add: generated_id_def)
  ultimately show ?thesis
    by (simp add: headers_after_eq [where ts = ts] Some Let_def)
qed

lemma headers_after_From:
  "e_to this = Some ts \<Longrightarrow> map_of (headers_after e this) ''From'' = Some (format_user (e_from this))"
  by (cases "e_reply this"; cases "e_cc this")
     (simp_all add: headers_after_eq Let_def map_of_update_other map_of_update_same)

lemma headers_after_To:
  "e_to this = Some ts \<Longrightarrow>
   map_of (headers_after e this) ''To'' = Some (join '', '' (map format_user ts))"
  by (cases "e_reply this"; cases "e_cc this")
     (simp_all add: headers_after_eq Let_def map_of_update_other map_of_update_same)

lemma headers_after_Subject:
  "e_to this = Some ts \<Longrightarrow>
   map_of (headers_after e this) ''Subject''
     = Some (''=?utf-8?b?'' @ base64_encode (utf8 (e_subject this)) @ ''?='')"
  by (simp add: headers_after_eq Let_def map_of_update_other map_of_update_same)

lemma headers_after_Date:
  "e_to this = Some ts \<Longrightarrow> map_of (headers_after e this) ''Date'' = Some (now_header e)"
  by (simp add: headers_after_eq Let_def map_of_update_other map_of_update_same)

lemma headers_after_Reply:
  "e_to this = Some ts \<Longrightarrow>
   map_of (headers_after e this) ''Reply-To''
     = (case e_reply this of
          None \<Rightarrow> map_of (e_headers this) ''Reply-To''
        | Some r \<Rightarrow> Some (format_user r))"
  by (cases "e_reply this"; cases "e_cc this")
     (simp_all add: headers_after_eq Let_def map_of_update_other map_of_update_same)

lemma headers_after_CC:
  "e_to this = Some ts \<Longrightarrow>
   map_of (headers_after e this) ''CC''
     = (case e_cc this of
          None \<Rightarrow> map_of (e_headers this) ''CC''
        | Some cs \<Rightarrow> Some (join '', '' (map format_user cs)))"
  by (cases "e_reply this"; cases "e_cc this")
     (simp_all add: headers_after_eq Let_def map_of_update_other map_of_update_same)

lemma headers_after_Message_ID:
  "e_to this = Some ts \<Longrightarrow>
   map_of (headers_after e this) ''Message-ID''
     = Some (if truthy (map_of (e_headers this) ''Message-ID'')
             then the_string (map_of (e_headers this) ''Message-ID'')
             else generated_id e this)"
  by (cases "e_reply this"; cases "e_cc this")
     (simp_all add: headers_after_eq Let_def map_of_update_other map_of_update_same)

lemma headers_after_other:
  "e_to this = Some ts \<Longrightarrow> k \<notin> set reserved_keys \<Longrightarrow>
   map_of (headers_after e this) k = map_of (e_headers this) k"
  by (cases "e_reply this"; cases "e_cc this")
     (simp_all add: headers_after_eq Let_def map_of_update_other reserved_keys_def)

lemma headers_after_distinct:
  "e_to this = Some ts \<Longrightarrow> distinct (map fst (e_headers this)) \<Longrightarrow>
   distinct (map fst (headers_after e this))"
  by (cases "e_reply this"; cases "e_cc this")
     (simp_all add: headers_after_eq Let_def AList.distinct_update)

lemma headers_after_keep_keys:
  "e_to this = Some ts \<Longrightarrow> k \<in> fst ` set (e_headers this) \<Longrightarrow>
   k \<in> fst ` set (headers_after e this)"
  by (cases "e_reply this"; cases "e_cc this")
     (simp_all add: headers_after_eq Let_def AList.dom_update)

section \<open>What \<^verbatim>\<open>getEmailData\<close> returns\<close>

lemma attachment_part_eq:
  "attachment_part mb now a = delimiter mb @ attachment_subpart now a"
  by (simp add: attachment_part_def attachment_subpart_def delimiter_def Let_def the_string_def)

lemma attachments_loop_eq:
  "attachments_loop mb now i as acc
   = acc @ concat (map (\<lambda>(j, a). attachment_part mb (now j) a) (enumerate i as))"
  by (induction as arbitrary: i acc) simp_all

lemma wrapText_returns: "0 < n \<Longrightarrow> \<exists>lines. wrapText t n = Some lines"
  using wrapText_ok [of n t] by blast

lemma text_block_eq:
  "\<exists>tl. text_block A txt
        = Some (concat (map (\<lambda>part. delimiter A @ part)
                  (if truthy txt then [text_subpart tl] else [])))
      \<and> (truthy txt \<longrightarrow> wrapText (the_string txt) 998 = Some tl)"
proof (cases "truthy txt")
  case True
  obtain tl where "wrapText (the_string txt) 998 = Some tl"
    using wrapText_returns [of 998 "the_string txt"] by auto
  with True show ?thesis
    by (simp add: text_block_def delimiter_def text_subpart_def the_string_def)
next
  case False
  then show ?thesis
    by (simp add: text_block_def)
qed

lemma html_block_eq:
  "\<exists>hl. html_block A htm
        = Some (concat (map (\<lambda>part. delimiter A @ part)
                  (if truthy htm then [html_subpart hl] else [])))
      \<and> (truthy htm \<longrightarrow> wrapText (base64_encode (utf8 (the_string htm))) 76 = Some hl)"
proof (cases "truthy htm")
  case True
  obtain hl where "wrapText (base64_encode (utf8 (the_string htm))) 76 = Some hl"
    using wrapText_returns [of 76 "base64_encode (utf8 (the_string htm))"] by auto
  with True show ?thesis
    by (simp add: html_block_def delimiter_def html_subpart_def the_string_def)
next
  case False
  then show ?thesis
    by (simp add: html_block_def)
qed

lemma header_line_fun: "header_line = (\<lambda>kv. fst kv @ '': '' @ snd kv)"
  by (rule ext) (simp add: header_line_def)

lemma getEmailData_None:
  "e_to this = None \<Longrightarrow>
   getEmailData e this
   = Some (this\<lparr>e_headers := AList.update ''From'' (format_user (e_from this)) (e_headers this)\<rparr>,
           Inl TypeError)"
  by (simp add: getEmailData_def headers_after_None)

lemma getEmailData_Some:
  assumes "e_to this = Some ts"
  shows "\<exists>tl hl.
      getEmailData e this
        = Some (this\<lparr>e_headers := headers_after e this\<rparr>,
                Inr (payload e (this\<lparr>e_headers := headers_after e this\<rparr>) tl hl))
      \<and> (truthy (e_text this) \<longrightarrow> wrapText (the_string (e_text this)) 998 = Some tl)
      \<and> (truthy (e_html this) \<longrightarrow>
            wrapText (base64_encode (utf8 (the_string (e_html this)))) 76 = Some hl)"
proof -
  let ?A = "generateSafeBoundary ''alternative_'' (randomBytes_alternative e)"
  obtain tl where tl: "text_block ?A (e_text this)
        = Some (concat (map (\<lambda>part. delimiter ?A @ part)
                  (if truthy (e_text this) then [text_subpart tl] else [])))"
      "truthy (e_text this) \<longrightarrow> wrapText (the_string (e_text this)) 998 = Some tl"
    using text_block_eq [of ?A "e_text this"] by blast
  obtain hl where hl: "html_block ?A (e_html this)
        = Some (concat (map (\<lambda>part. delimiter ?A @ part)
                  (if truthy (e_html this) then [html_subpart hl] else [])))"
      "truthy (e_html this) \<longrightarrow>
         wrapText (base64_encode (utf8 (the_string (e_html this)))) 76 = Some hl"
    using html_block_eq [of ?A "e_html this"] by blast
  have "getEmailData e this
        = Some (this\<lparr>e_headers := headers_after e this\<rparr>,
                Inr (payload e (this\<lparr>e_headers := headers_after e this\<rparr>) tl hl))"
    by (simp add: getEmailData_def resolveHeader_Some [OF assms] Let_def tl(1) hl(1)
          attachments_loop_eq attachment_part_eq header_line_fun case_prod_unfold payload_def
          header_block_def mime_body_def delimiter_def close_delimiter_def)
  with tl(2) hl(2) show ?thesis
    by blast
qed

lemma count_key:
  "distinct (map fst hs) \<Longrightarrow> map_of hs k = Some v \<Longrightarrow> length (filter (\<lambda>kv. fst kv = k) hs) = 1"
proof (induction hs)
  case Nil
  then show ?case by simp
next
  case (Cons p hs)
  show ?case
  proof (cases "fst p = k")
    case True
    from Cons.prems(1) have "fst p \<notin> fst ` set hs"
      by simp
    with True have "\<forall>kv\<in>set hs. fst kv \<noteq> k"
      by blast
    then have "filter (\<lambda>kv. fst kv = k) hs = []"
      by (simp add: filter_empty_conv)
    with True show ?thesis by simp
  next
    case False
    with Cons show ?thesis
      by (cases p) simp
  qed
qed

lemma join_append:
  "xs \<noteq> [] \<Longrightarrow> ys \<noteq> [] \<Longrightarrow> join sep (xs @ ys) = join sep xs @ sep @ join sep ys"
proof (induction sep xs rule: join.induct)
  case (1 sep)
  then show ?case by simp
next
  case (2 sep x)
  then show ?case by (cases ys) simp_all
next
  case (3 sep x y zs)
  then show ?case by simp
qed


lemma pieces_concat: "0 < n \<Longrightarrow> concat (pieces n w) = w"
  by (simp add: pieces_def concat_slices)

lemma pieces_short: "\<forall>w\<in>set ws. length w \<le> n \<Longrightarrow> concat (map (pieces n) ws) = ws"
  by (induction ws) (simp_all add: pieces_def)

text \<open>One attachment among the parts, one entry among the header lines.\<close>

lemma concat_map_nth:
  "i < length xs \<Longrightarrow>
   concat (map f xs) = concat (map f (take i xs)) @ f (xs ! i) @ concat (map f (drop (Suc i) xs))"
proof -
  assume "i < length xs"
  then have "xs = take i xs @ xs ! i # drop (Suc i) xs"
    by (rule id_take_nth_drop)
  then have "concat (map f xs) = concat (map f (take i xs @ xs ! i # drop (Suc i) xs))"
    by simp
  then show ?thesis
    by simp
qed

lemma getEmailData_attachment:
  assumes "e_to this = Some ts" and "e_attachments this = Some as" and "i < length as"
  shows "\<exists>before after.
      getEmailData e this
        = Some (this\<lparr>e_headers := headers_after e this\<rparr>,
            Inr (before @ delimiter (generateSafeBoundary ''mixed_'' (randomBytes_mixed e))
                 @ attachment_subpart (now_attachment e i) (as ! i) @ after))"
proof -
  let ?this' = "this\<lparr>e_headers := headers_after e this\<rparr>"
  let ?M = "generateSafeBoundary ''mixed_'' (randomBytes_mixed e)"
  let ?f = "\<lambda>(j, a). delimiter ?M @ attachment_subpart (now_attachment e j) a"
  from getEmailData_Some [OF assms(1), of e] obtain tl hl where
    g: "getEmailData e this = Some (?this', Inr (payload e ?this' tl hl))"
    by blast
  define x where "x = header_block e ?this' @ CRLF @ CRLF @ delimiter ?M
      @ ''Content-Type: multipart/alternative; boundary='' @ DQ
      @ generateSafeBoundary ''alternative_'' (randomBytes_alternative e) @ DQ @ CRLF @ CRLF
      @ concat (map (\<lambda>part. delimiter (generateSafeBoundary ''alternative_''
                                       (randomBytes_alternative e)) @ part)
          ((if truthy (e_text this) then [text_subpart tl] else [])
           @ (if truthy (e_html this) then [html_subpart hl] else [])))
      @ close_delimiter (generateSafeBoundary ''alternative_'' (randomBytes_alternative e))"
  define y where "y = close_delimiter ?M @ ''.'' @ CRLF"
  have p: "payload e ?this' tl hl = x @ concat (map ?f (enumerate 0 as)) @ y"
    by (simp add: payload_def mime_body_def Let_def assms(2) x_def y_def)
  have l: "i < length (enumerate 0 as)"
    using assms(3) by simp
  have n: "enumerate 0 as ! i = (i, as ! i)"
    using assms(3) by (simp add: nth_enumerate_eq)
  have "concat (map ?f (enumerate 0 as))
        = concat (map ?f (take i (enumerate 0 as))) @ ?f (enumerate 0 as ! i)
          @ concat (map ?f (drop (Suc i) (enumerate 0 as)))"
    using l by (rule concat_map_nth)
  then have "payload e ?this' tl hl
        = (x @ concat (map ?f (take i (enumerate 0 as))))
          @ delimiter ?M @ attachment_subpart (now_attachment e i) (as ! i)
          @ (concat (map ?f (drop (Suc i) (enumerate 0 as))) @ y)"
    unfolding p n by simp
  with g have "getEmailData e this
        = Some (?this',
            Inr ((x @ concat (map ?f (take i (enumerate 0 as))))
                 @ delimiter ?M @ attachment_subpart (now_attachment e i) (as ! i)
                 @ (concat (map ?f (drop (Suc i) (enumerate 0 as))) @ y)))"
    by (simp only:)
  then show ?thesis
    by (intro exI)
qed

lemma filter_key:
  "distinct (map fst hs) \<Longrightarrow> map_of hs k = Some v \<Longrightarrow> filter (\<lambda>kv. fst kv = k) hs = [(k, v)]"
proof (induction hs)
  case Nil
  then show ?case by simp
next
  case (Cons p hs)
  show ?case
  proof (cases "fst p = k")
    case True
    from Cons.prems(1) have "fst p \<notin> fst ` set hs"
      by simp
    with True have "\<forall>kv\<in>set hs. fst kv \<noteq> k"
      by blast
    then have "filter (\<lambda>kv. fst kv = k) hs = []"
      by (simp add: filter_empty_conv)
    with True Cons.prems(2) show ?thesis
      by (cases p) simp
  next
    case False
    with Cons show ?thesis
      by (cases p) simp
  qed
qed

lemma header_name_line:
  "CHR '':'' \<notin> set k \<Longrightarrow> header_name (header_line (k, v)) = k"
proof -
  assume "CHR '':'' \<notin> set k"
  then have "takeWhile (\<lambda>c. c \<noteq> CHR '':'') (k @ CHR '':'' # CHR '' '' # v) = k"
    by (subst takeWhile_append2) auto
  then show ?thesis
    by (simp add: header_name_def header_line_def)
qed

lemma lines_of_key:
  assumes "\<forall>k\<in>fst ` set hs. CHR '':'' \<notin> set k"
  shows "filter (\<lambda>line. header_name line = K) (map header_line hs)
         = map header_line (filter (\<lambda>kv. fst kv = K) hs)"
proof -
  have "header_name (header_line kv) = fst kv" if "kv \<in> set hs" for kv
    using assms that header_name_line [of "fst kv" "snd kv"] by auto
  then have "filter ((\<lambda>line. header_name line = K) \<circ> header_line) hs
             = filter (\<lambda>kv. fst kv = K) hs"
    by (intro filter_cong) auto
  then show ?thesis
    by (simp add: filter_map)
qed

lemma reserved_no_colon: "k \<in> set reserved_keys \<Longrightarrow> CHR '':'' \<notin> set k"
  by (auto simp: reserved_keys_def)

lemma headers_after_keys_subset:
  assumes "e_to this = Some ts" and "k \<in> fst ` set (headers_after e this)"
  shows "k \<in> fst ` set (e_headers this) \<or> k \<in> set reserved_keys"
proof (rule ccontr)
  assume n: "\<not> (k \<in> fst ` set (e_headers this) \<or> k \<in> set reserved_keys)"
  then have "map_of (headers_after e this) k = map_of (e_headers this) k"
    using headers_after_other [OF assms(1)] by blast
  also from n have "\<dots> = None"
    by (simp add: map_of_eq_None_iff)
  finally have "k \<notin> fst ` set (headers_after e this)"
    by (simp add: map_of_eq_None_iff)
  with assms(2) show False by blast
qed

lemma header_lines_of_key:
  assumes "e_to this = Some ts" and "distinct (map fst (e_headers this))"
    and "\<forall>k\<in>fst ` set (e_headers this). CHR '':'' \<notin> set k"
    and "map_of (headers_after e this) K = Some v"
  shows "filter (\<lambda>line. header_name line = K) (map header_line (headers_after e this))
         = [K @ '': '' @ v]"
proof -
  have c: "\<forall>k\<in>fst ` set (headers_after e this). CHR '':'' \<notin> set k"
    using headers_after_keys_subset [OF assms(1)] assms(3) reserved_no_colon by blast
  have d: "distinct (map fst (headers_after e this))"
    using assms(1,2) by (rule headers_after_distinct)
  show ?thesis
    unfolding lines_of_key [OF c] filter_key [OF d assms(4)]
    by (simp add: header_line_def)
qed

section \<open>The examples, evaluated\<close>

lemma base64_Hi: "base64_encode (utf8 ''Hi'') = ''SGk=''"
  by (simp add: utf8_def utf8_unit_def b64_char_def base64_alphabet_def)

lemma wrapText_hello: "wrapText ''hello'' 998 = Some [''hello'']"
  by (simp add: wrapText_def match_nonspace_def is_space_def)

lemma example_boundaries:
  "generateSafeBoundary ''mixed_'' (randomBytes_mixed example_env) = ''mixed_001fab''"
  "generateSafeBoundary ''alternative_'' (randomBytes_alternative example_env) = ''alternative_001fab''"
  by (simp_all add: example_env_def generateSafeBoundary_def toString_hex_def hex_byte_def
        hex_digit_def unsafe_chars_def)



lemma example_text_lines:
  assumes "truthy (e_text this) \<longrightarrow> wrapText (the_string (e_text this)) 998 = Some textLines"
    and "e_text this = Some ''hello''"
  shows "textLines = [''hello'']"
  using assms by (simp add: truthy_def the_string_def wrapText_hello)

lemma example_body:
  assumes "e_text this = Some ''hello''" "e_html this = None" "e_attachments this = None"
  shows "mime_body example_env this [''hello''] htmlLines
       = ''--mixed_001fab'' @ CRLF
         @ ''Content-Type: multipart/alternative; boundary='' @ DQ @ ''alternative_001fab'' @ DQ @ CRLF
         @ CRLF
         @ ''--alternative_001fab'' @ CRLF
         @ ''Content-Type: text/plain; charset='' @ DQ @ ''utf-8'' @ DQ @ CRLF
         @ CRLF
         @ ''hello'' @ CRLF
         @ CRLF
         @ ''--alternative_001fab--'' @ CRLF
         @ ''--mixed_001fab--'' @ CRLF
         @ ''.'' @ CRLF"
  unfolding mime_body_def Let_def example_boundaries
  by (simp add: assms truthy_def delimiter_def close_delimiter_def text_subpart_def)


lemma example_words:
  "match_nonspace ''hello   world thisisaverylongwordthatmustbesplit is a  test''
   = [''hello'', ''world'', ''thisisaverylongwordthatmustbesplit'', ''is'', ''a'', ''test'']"
  by (simp add: match_nonspace_def is_space_def)

lemma example_slices:
  "slices 10 ''thisisaverylongwordthatmustbesplit''
   = [''thisisaver'', ''ylongwordt'', ''hatmustbes'', ''plit'']"
  by (simp add: slices.simps)

lemma example_wrap:
  "wrapText ''hello   world thisisaverylongwordthatmustbesplit is a  test'' 10
   = Some [''hello'', ''world'', ''thisisaver'', ''ylongwordt'', ''hatmustbes'', ''plit'',
           ''is a test'']"
  by (simp add: wrapText_def example_words forced_split_pos example_slices)

lemma split_pop_domain: "c \<notin> set d \<Longrightarrow> split_pop c (l @ [c] @ d) = d"
proof -
  assume "c \<notin> set d"
  then have "takeWhile (\<lambda>x. x \<noteq> c) (rev d @ c # rev l) = rev d"
    by (subst takeWhile_append2) auto
  then show ?thesis
    by (simp add: split_pop_def)
qed

lemma getEmailData_Some_headers:
  assumes "e_to this = Some ts" and "getEmailData e this = Some (this', r)"
  shows "this' = this\<lparr>e_headers := headers_after e this\<rparr>"
  using getEmailData_Some [OF assms(1), of e] assms(2) by auto

lemma example_custom_to:
  "e_to example_custom
   = Some [bare ''b@example.com'', \<lparr>name = Some ''Cy'', email = ''c@example.com''\<rparr>]"
  by (simp add: example_custom_def example_email_def)

lemma example_call:
  assumes "e_to this = Some ts" "e_text this = Some ''hello''" "e_html this = None"
    "e_attachments this = None"
  shows "getEmailData example_env this
     = Some (this\<lparr>e_headers := headers_after example_env this\<rparr>,
         Inr (join CRLF ([''MIME-Version: 1.0''] @ map header_line (headers_after example_env this)
                @ [''Content-Type: multipart/mixed; boundary='' @ DQ @ ''mixed_001fab'' @ DQ])
              @ CRLF @ CRLF
              @ ''--mixed_001fab'' @ CRLF
              @ ''Content-Type: multipart/alternative; boundary='' @ DQ @ ''alternative_001fab'' @ DQ @ CRLF
              @ CRLF
              @ ''--alternative_001fab'' @ CRLF
              @ ''Content-Type: text/plain; charset='' @ DQ @ ''utf-8'' @ DQ @ CRLF
              @ CRLF
              @ ''hello'' @ CRLF
              @ CRLF
              @ ''--alternative_001fab--'' @ CRLF
              @ ''--mixed_001fab--'' @ CRLF
              @ ''.'' @ CRLF))"
proof -
  let ?this' = "this\<lparr>e_headers := headers_after example_env this\<rparr>"
  from getEmailData_Some [OF assms(1), of example_env] obtain tl hl where
    g: "getEmailData example_env this = Some (?this', Inr (payload example_env ?this' tl hl))"
    and t: "truthy (e_text this) \<longrightarrow> wrapText (the_string (e_text this)) 998 = Some tl"
    by blast
  have f: "e_text ?this' = Some ''hello''" "e_html ?this' = None" "e_attachments ?this' = None"
    using assms by simp_all
  have tl: "tl = [''hello'']"
    using t assms(2) by (rule example_text_lines)
  have h: "header_block example_env ?this'
      = join CRLF ([''MIME-Version: 1.0''] @ map header_line (headers_after example_env this)
                @ [''Content-Type: multipart/mixed; boundary='' @ DQ @ ''mixed_001fab'' @ DQ])"
    unfolding header_block_def example_boundaries by simp
  show ?thesis
    unfolding g payload_def tl h example_body [OF f]
    by (simp only: append_assoc)
qed

lemma example_reply_header_to: "e_to example_reply_header = Some [bare ''b@example.com'']"
  by (simp add: example_reply_header_def example_email_def)

lemma example_reply_header_headers:
  "headers_after example_env example_reply_header =
     [(''Reply-To'', ''other@example.org''),
      (''From'', ''a@example.com''), (''To'', ''b@example.com''),
      (''Subject'', ''=?utf-8?b?SGk=?=''),
      (''Date'', ''Tue, 03 Nov 2026 10:00:00 GMT''),
      (''Message-ID'', ''<123e4567-e89b-42d3-a456-426614174000@example.com>'')]"
  by (subst headers_after_eq [OF example_reply_header_to])
     (simp add: Let_def example_reply_header_def example_email_def example_env_def
        format_user_def truthy_def bare_def base64_Hi generated_id_def split_pop_def)

lemma example_bcc_header_to: "e_to example_bcc_header = Some [bare ''b@example.com'']"
  by (simp add: example_bcc_header_def example_email_def)

lemma example_bcc_header_headers:
  "headers_after example_env example_bcc_header =
     [(''BCC'', ''hidden@example.com''),
      (''From'', ''a@example.com''), (''To'', ''b@example.com''),
      (''Subject'', ''=?utf-8?b?SGk=?=''),
      (''Date'', ''Tue, 03 Nov 2026 10:00:00 GMT''),
      (''Message-ID'', ''<123e4567-e89b-42d3-a456-426614174000@example.com>'')]"
  by (subst headers_after_eq [OF example_bcc_header_to])
     (simp add: Let_def example_bcc_header_def example_email_def example_env_def
        format_user_def truthy_def bare_def base64_Hi generated_id_def split_pop_def)

section \<open>The \<^verbatim>\<open>bcc\<close> list and the second call\<close>

lemma getEmailData_bcc:
  "getEmailData e (this\<lparr>e_bcc := b\<rparr>)
   = map_option (\<lambda>p. ((fst p)\<lparr>e_bcc := b\<rparr>, snd p)) (getEmailData e this)"
proof (cases "e_to this")
  case None
  then have "e_to (this\<lparr>e_bcc := b\<rparr>) = None"
    by simp
  from getEmailData_None [OF this, of e] getEmailData_None [OF None, of e] show ?thesis
    by simp
next
  case (Some ts)
  then have s: "e_to (this\<lparr>e_bcc := b\<rparr>) = Some ts"
    by simp
  let ?A = "generateSafeBoundary ''alternative_'' (randomBytes_alternative e)"
  obtain tb where tb: "text_block ?A (e_text this) = Some tb"
    using text_block_eq [of ?A "e_text this"] by blast
  obtain hb where hb: "html_block ?A (e_html this) = Some hb"
    using html_block_eq [of ?A "e_html this"] by blast
  show ?thesis
    by (simp add: getEmailData_def resolveHeader_Some [OF s] resolveHeader_Some [OF Some]
          headers_after_bcc Let_def tb hb)
qed

lemma getEmailData_returns: "\<exists>r. getEmailData e this = Some r"
proof (cases "e_to this")
  case None
  from getEmailData_None [OF this, of e] show ?thesis by blast
next
  case (Some ts)
  from getEmailData_Some [OF this, of e] show ?thesis by blast
qed

lemma BCC_not_reserved: "''BCC'' \<notin> set reserved_keys"
  by (simp add: reserved_keys_def)

lemma getEmailData_BCC_entry:
  assumes "getEmailData e this = Some (this', r)"
  shows "map_of (e_headers this') ''BCC'' = map_of (e_headers this) ''BCC''"
proof (cases "e_to this")
  case None
  from getEmailData_None [OF this, of e] assms
  have "e_headers this' = AList.update ''From'' (format_user (e_from this)) (e_headers this)"
    by auto
  then show ?thesis
    by (simp add: map_of_update_other)
next
  case (Some ts)
  from getEmailData_Some_headers [OF Some assms]
  have "e_headers this' = headers_after e this"
    by simp
  then show ?thesis
    using headers_after_other [OF Some BCC_not_reserved] by simp
qed













section \<open>The example with two bodies and two attachments\<close>



lemma base64_Cafe: "base64_encode (utf8 (''Caf'' @ [CHR 0xE9])) = ''Q2Fmw6k=''"
  by (simp add: utf8_def utf8_unit_def b64_char_def base64_alphabet_def)

lemma base64_html: "base64_encode (utf8 (''<p>h'' @ [CHR 0xE9] @ ''</p>'')) = ''PHA+aMOpPC9wPg==''"
  by (simp add: utf8_def utf8_unit_def b64_char_def base64_alphabet_def)

lemma wrapText_hello_world: "wrapText ''hello world'' 998 = Some [''hello world'']"
  by (simp add: wrapText_def match_nonspace_def is_space_def)

lemma wrapText_html: "wrapText ''PHA+aMOpPC9wPg=='' 76 = Some [''PHA+aMOpPC9wPg=='']"
  by (simp add: wrapText_def match_nonspace_def is_space_def)

lemma getMimeType_pdf: "getMimeType ''a.pdf'' = ''application/pdf''"
  by code_simp

lemma match_dot_pdf: "match_dot 72 ''JVBERi0xLjQK'' = [''JVBERi0xLjQK'']"
  by (simp add: match_dot_def is_line_terminator_def)

lemma match_dot_notes:
  "match_dot 72 ''MDEyMzQ1Njc4OTAxMjM0NTY3ODkwMTIzNDU2Nzg5MDEyMzQ1Njc4OTAxMjM0NTY3ODkwMTIzNDU2Nzg5''
   = [''MDEyMzQ1Njc4OTAxMjM0NTY3ODkwMTIzNDU2Nzg5MDEyMzQ1Njc4OTAxMjM0NTY3ODkwMTIz'', ''NDU2Nzg5'']"
  by (simp add: match_dot_def is_line_terminator_def)

lemma call_boundaries:
  "generateSafeBoundary ''mixed_'' (randomBytes_mixed first_call_env) = ''mixed_001fab''"
  "generateSafeBoundary ''alternative_'' (randomBytes_alternative first_call_env) = ''alternative_c4059e''"
  "generateSafeBoundary ''mixed_'' (randomBytes_mixed second_call_env) = ''mixed_ff103c''"
  "generateSafeBoundary ''alternative_'' (randomBytes_alternative second_call_env) = ''alternative_07c255''"
  by (simp_all add: first_call_env_def second_call_env_def generateSafeBoundary_def
        toString_hex_def hex_byte_def hex_digit_def unsafe_chars_def)

lemma full_to:
  "e_to example_full
   = Some [bare ''b@example.com'', \<lparr>name = Some ''Cy'', email = ''c@example.com''\<rparr>]"
  by (simp add: example_full_def)

lemma full_distinct: "distinct (map fst (e_headers example_full))"
  by (simp add: example_full_def)

lemma full_headers:
  "headers_after e example_full =
     [(''X-Tag'', ''t1''), (''From'', ''Ann <a@example.com>''),
      (''To'', ''b@example.com, Cy <c@example.com>''),
      (''Reply-To'', ''r@example.com''), (''CC'', ''d@example.com''),
      (''Subject'', ''=?utf-8?b?Q2Fmw6k=?=''),
      (''Date'', now_header e),
      (''Message-ID'', ''<'' @ randomUUID e @ ''@example.com>'')]"
  by (subst headers_after_eq [OF full_to])
     (simp add: Let_def example_full_def format_user_def truthy_def bare_def generated_id_def
        split_pop_def utf8_def utf8_unit_def b64_char_def base64_alphabet_def)


lemma full_body:
  assumes "e_text this = Some ''hello world''"
    and "e_html this = Some (''<p>h'' @ [CHR 0xE9] @ ''</p>'')"
    and "e_attachments this = Some [example_pdf, example_notes]"
    and "generateSafeBoundary ''mixed_'' (randomBytes_mixed e) = M"
    and "generateSafeBoundary ''alternative_'' (randomBytes_alternative e) = A"
  shows "mime_body e this [''hello world''] [''PHA+aMOpPC9wPg==''] 
         = example_full_body M A (now_attachment e 0) (now_attachment e 1)"
  unfolding mime_body_def Let_def assms(4,5)
  by (simp add: assms(1,2,3) truthy_def delimiter_def close_delimiter_def text_subpart_def
        html_subpart_def attachment_subpart_def example_pdf_def example_notes_def
        getMimeType_pdf match_dot_pdf match_dot_notes the_string_def example_full_body_def)

lemma full_call:
  assumes "e_to this = Some ts"
    and "e_text this = Some ''hello world''"
    and "e_html this = Some (''<p>h'' @ [CHR 0xE9] @ ''</p>'')"
    and "e_attachments this = Some [example_pdf, example_notes]"
    and "generateSafeBoundary ''mixed_'' (randomBytes_mixed e) = M"
    and "generateSafeBoundary ''alternative_'' (randomBytes_alternative e) = A"
  shows "getEmailData e this
     = Some (this\<lparr>e_headers := headers_after e this\<rparr>,
         Inr (join CRLF ([''MIME-Version: 1.0''] @ map header_line (headers_after e this)
                @ [''Content-Type: multipart/mixed; boundary='' @ DQ @ M @ DQ])
              @ CRLF @ CRLF
              @ example_full_body M A (now_attachment e 0) (now_attachment e 1)))"
proof -
  let ?this' = "this\<lparr>e_headers := headers_after e this\<rparr>"
  from getEmailData_Some [OF assms(1), of e] obtain tl hl where
    g: "getEmailData e this = Some (?this', Inr (payload e ?this' tl hl))"
    and t: "truthy (e_text this) \<longrightarrow> wrapText (the_string (e_text this)) 998 = Some tl"
    and h: "truthy (e_html this) \<longrightarrow>
            wrapText (base64_encode (utf8 (the_string (e_html this)))) 76 = Some hl"
    by blast
  have f: "e_text ?this' = Some ''hello world''"
    "e_html ?this' = Some (''<p>h'' @ [CHR 0xE9] @ ''</p>'')"
    "e_attachments ?this' = Some [example_pdf, example_notes]"
    using assms by simp_all
  have tl: "tl = [''hello world'']"
    using t by (simp add: assms(2) truthy_def the_string_def wrapText_hello_world)
  have hl: "hl = [''PHA+aMOpPC9wPg=='']"
    using h
    by (simp add: assms(3) truthy_def the_string_def utf8_def utf8_unit_def b64_char_def
          base64_alphabet_def wrapText_html)
  have b: "header_block e ?this'
      = join CRLF ([''MIME-Version: 1.0''] @ map header_line (headers_after e this)
                @ [''Content-Type: multipart/mixed; boundary='' @ DQ @ M @ DQ])"
    unfolding header_block_def assms(5) by simp
  show ?thesis
    unfolding g payload_def tl hl b full_body [OF f assms(5,6)]
    by (simp only: append_assoc)
qed


section \<open>The boundaries and the creation dates in the payload\<close>


lemma payload_boundaries:
  "\<exists>before after.
     payload e this textLines htmlLines
     = before
       @ ''Content-Type: multipart/mixed; boundary='' @ DQ
         @ generateSafeBoundary ''mixed_'' (randomBytes_mixed e) @ DQ @ CRLF
       @ CRLF
       @ ''--'' @ generateSafeBoundary ''mixed_'' (randomBytes_mixed e) @ CRLF
       @ ''Content-Type: multipart/alternative; boundary='' @ DQ
         @ generateSafeBoundary ''alternative_'' (randomBytes_alternative e) @ DQ @ CRLF
       @ CRLF
       @ after"
proof -
  let ?M = "generateSafeBoundary ''mixed_'' (randomBytes_mixed e)"
  let ?A = "generateSafeBoundary ''alternative_'' (randomBytes_alternative e)"
  let ?z = "''Content-Type: multipart/mixed; boundary='' @ DQ @ ?M @ DQ"
  define after where "after =
      concat (map (\<lambda>part. delimiter ?A @ part)
          ((if truthy (e_text this) then [text_subpart textLines] else [])
           @ (if truthy (e_html this) then [html_subpart htmlLines] else [])))
      @ close_delimiter ?A
      @ concat (map (\<lambda>(i, a). delimiter ?M @ attachment_subpart (now_attachment e i) a)
          (enumerate 0 (case e_attachments this of None \<Rightarrow> [] | Some as \<Rightarrow> as)))
      @ close_delimiter ?M @ ''.'' @ CRLF"
  have "join CRLF ((''MIME-Version: 1.0'' # map header_line (e_headers this)) @ [?z])
        = join CRLF (''MIME-Version: 1.0'' # map header_line (e_headers this)) @ CRLF
          @ join CRLF [?z]"
    by (rule join_append) simp_all
  then have "header_block e this
        = (join CRLF (''MIME-Version: 1.0'' # map header_line (e_headers this)) @ CRLF) @ ?z"
    by (simp add: header_block_def)
  then have "payload e this textLines htmlLines
     = (join CRLF (''MIME-Version: 1.0'' # map header_line (e_headers this)) @ CRLF)
       @ ''Content-Type: multipart/mixed; boundary='' @ DQ @ ?M @ DQ @ CRLF
       @ CRLF
       @ ''--'' @ ?M @ CRLF
       @ ''Content-Type: multipart/alternative; boundary='' @ DQ @ ?A @ DQ @ CRLF
       @ CRLF
       @ after"
    by (simp add: payload_def mime_body_def Let_def delimiter_def after_def)
  then show ?thesis
    by (intro exI)
qed



lemma getEmailData_boundaries:
  assumes "getEmailData e this = Some (this', Inr p)" and "e_to this = Some ts"
  shows "\<exists>before after.
      p = before
       @ ''Content-Type: multipart/mixed; boundary='' @ DQ
         @ generateSafeBoundary ''mixed_'' (randomBytes_mixed e) @ DQ @ CRLF
       @ CRLF
       @ ''--'' @ generateSafeBoundary ''mixed_'' (randomBytes_mixed e) @ CRLF
       @ ''Content-Type: multipart/alternative; boundary='' @ DQ
         @ generateSafeBoundary ''alternative_'' (randomBytes_alternative e) @ DQ @ CRLF
       @ CRLF
       @ after"
proof -
  from getEmailData_Some [OF assms(2), of e] assms(1) obtain tl hl where
    "p = payload e (this\<lparr>e_headers := headers_after e this\<rparr>) tl hl"
    by auto
  then show ?thesis
    using payload_boundaries [of e "this\<lparr>e_headers := headers_after e this\<rparr>" tl hl]
    by simp
qed

section \<open>A sequence of calls\<close>



section \<open>Construction: the one validated precondition\<close>

text \<open>
  C4. The constructor throws exactly when neither \<^verbatim>\<open>text\<close> nor \<^verbatim>\<open>html\<close> is provided, where
  the source's test \<^verbatim>\<open>!options.text && !options.html\<close> takes a value as provided when it is a
  non-empty string. The exception is the only one, no \<^verbatim>\<open>Email\<close> is produced with it, and
  every other input (any \<^verbatim>\<open>from\<close>, \<^verbatim>\<open>to\<close>, attachments, absent headers) yields an \<^verbatim>\<open>Email\<close>.
\<close>

theorem Email_new_error:
  "(Email_new options = Inl ConstructionError
      \<longleftrightarrow> \<not> truthy (o_text options) \<and> \<not> truthy (o_html options))
   \<and> (\<forall>err. Email_new options = Inl err \<longrightarrow> err = ConstructionError)
   \<and> (truthy (o_text options) \<or> truthy (o_html options) \<longrightarrow> (\<exists>this. Email_new options = Inr this))
   \<and> (truthy (o_text options) \<longleftrightarrow> (\<exists>t. o_text options = Some t \<and> t \<noteq> []))
   \<and> (truthy (o_html options) \<longleftrightarrow> (\<exists>h. o_html options = Some h \<and> h \<noteq> []))"
  by (auto simp: Email_new_def truthy_def split: option.splits)

text \<open>The example of the spec is accepted; without a text, or with empty strings, it is not.\<close>

theorem Email_new_witness:
  "Email_new example_options = Inr example_email
   \<and> Email_new (example_options\<lparr>o_text := None\<rparr>) = Inl ConstructionError
   \<and> Email_new (example_options\<lparr>o_text := Some [], o_html := Some []\<rparr>) = Inl ConstructionError"
proof -
  have "Email_new example_options = Inr example_email"
    by (simp add: Email_new_def example_options_def example_email_def truthy_def)
  moreover have "Email_new (example_options\<lparr>o_text := None\<rparr>) = Inl ConstructionError"
    using Email_new_error [of "example_options\<lparr>o_text := None\<rparr>"]
    by (simp add: example_options_def truthy_def)
  moreover have "Email_new (example_options\<lparr>o_text := Some [], o_html := Some []\<rparr>) = Inl ConstructionError"
    using Email_new_error [of "example_options\<lparr>o_text := Some [], o_html := Some []\<rparr>"]
    by (simp add: example_options_def truthy_def)
  ultimately show ?thesis by simp
qed

section \<open>Address normalization\<close>

text \<open>
  C7, as amended. \<^verbatim>\<open>toUsers\<close> returns \<^verbatim>\<open>undefined\<close> for an absent input and for the empty string,
  turns a non-empty string into one user with that address, returns a user as a list of
  one, and resolves each element of a list on its own; a list is mapped to a list of the
  same length, the empty list to the empty list. The \<^verbatim>\<open>to\<close> of a constructed \<^verbatim>\<open>Email\<close> is a
  non-empty sequence whenever the \<^verbatim>\<open>to\<close> option names at least one recipient.
\<close>

theorem toUsers_normalizes:
  "toUsers None = None
   \<and> toUsers (Some (One (Str []))) = None
   \<and> (s \<noteq> [] \<longrightarrow> toUsers (Some (One (Str s))) = Some [\<lparr>name = None, email = s\<rparr>])
   \<and> toUsers (Some (One (Usr v))) = Some [v]
   \<and> toUsers (Some (Many us)) = Some (map (\<lambda>u. case u of Str s \<Rightarrow> \<lparr>name = None, email = s\<rparr> | Usr v \<Rightarrow> v) us)
   \<and> (Email_new options = Inr this \<and> nonempty_input (o_to options)
        \<longrightarrow> (\<exists>ts. e_to this = Some ts \<and> ts \<noteq> []))"
  by (auto simp: bare_def Email_new_def nonempty_input_def
           split: if_splits recipients_input.splits address_input.splits)

theorem toUsers_witness:
  "toUsers (Some (One (Str ''b@example.com''))) = Some [\<lparr>name = None, email = ''b@example.com''\<rparr>]
   \<and> toUsers (Some (Many [Str ''b@example.com'', Usr \<lparr>name = Some ''C'', email = ''c@example.com''\<rparr>]))
       = Some [\<lparr>name = None, email = ''b@example.com''\<rparr>, \<lparr>name = Some ''C'', email = ''c@example.com''\<rparr>]
   \<and> e_to example_email = Some [\<lparr>name = None, email = ''b@example.com''\<rparr>]"
proof -
  have c: "Email_new example_options = Inr example_email"
    by (simp add: Email_new_def example_options_def example_email_def truthy_def)
  have n: "nonempty_input (o_to example_options)"
    by (simp add: nonempty_input_def example_options_def)
  from toUsers_normalizes [of "''b@example.com''" undefined
      "[Str ''b@example.com'', Usr \<lparr>name = Some ''C'', email = ''c@example.com''\<rparr>]"
      example_options example_email] c n
  show ?thesis
    by (simp add: example_email_def bare_def)
qed

text \<open>
  C7 as stated fails: an empty list is accepted, is not turned into \<^verbatim>\<open>undefined\<close>, and the
  \<^verbatim>\<open>Email\<close> constructed from it has an empty \<^verbatim>\<open>to\<close>.
\<close>

theorem empty_to_list_counterexample:
  "toUsers (Some (Many [])) = Some []
   \<and> map_sum id e_to (Email_new (example_options\<lparr>o_to := Many []\<rparr>)) = Inr (Some [])"
  by (simp add: Email_new_def example_options_def truthy_def)

section \<open>Boundaries\<close>

lemma underscore_safe: "CHR ''_'' \<notin> set unsafe_chars"
  by (simp add: unsafe_chars_def)

lemma generateSafeBoundary_safe:
  "set (generateSafeBoundary prefix bytes) \<inter> set unsafe_chars = {}"
  using underscore_safe by (auto simp: generateSafeBoundary_def)

lemma generateSafeBoundary_hd:
  "c \<notin> set unsafe_chars \<Longrightarrow>
   generateSafeBoundary (c # p) bytes = c # generateSafeBoundary p bytes"
  by (simp add: generateSafeBoundary_def)

text \<open>
  C6. Whatever the random bytes, the boundary made with the prefix \<^verbatim>\<open>mixed_\<close> differs from
  the one made with \<^verbatim>\<open>alternative_\<close> (they differ in their first character), and neither
  contains a character of \<^term>\<open>unsafe_chars\<close>, the class the source replaces.
\<close>

theorem boundaries_distinct_and_safe:
  "generateSafeBoundary ''mixed_'' r1 \<noteq> generateSafeBoundary ''alternative_'' r2
   \<and> set (generateSafeBoundary ''mixed_'' r1) \<inter> set unsafe_chars = {}
   \<and> set (generateSafeBoundary ''alternative_'' r2) \<inter> set unsafe_chars = {}"
proof -
  have m: "CHR ''m'' \<notin> set unsafe_chars" and a: "CHR ''a'' \<notin> set unsafe_chars"
    by (simp_all add: unsafe_chars_def)
  have "hd (generateSafeBoundary ''mixed_'' r1) = CHR ''m''"
    by (simp add: generateSafeBoundary_hd [OF m])
  moreover have "hd (generateSafeBoundary ''alternative_'' r2) = CHR ''a''"
    by (simp add: generateSafeBoundary_hd [OF a])
  ultimately have "generateSafeBoundary ''mixed_'' r1 \<noteq> generateSafeBoundary ''alternative_'' r2"
    by auto
  then show ?thesis
    by (simp add: generateSafeBoundary_safe)
qed

text \<open>The same random bytes for both boundaries.\<close>

theorem boundaries_witness:
  "generateSafeBoundary ''mixed_'' [0x00, 0x1f, 0xab] = ''mixed_001fab''
   \<and> generateSafeBoundary ''alternative_'' [0x00, 0x1f, 0xab] = ''alternative_001fab''
   \<and> generateSafeBoundary ''mixed_'' [0x00, 0x1f, 0xab]
       \<noteq> generateSafeBoundary ''alternative_'' [0x00, 0x1f, 0xab]"
  using boundaries_distinct_and_safe [of "[0x00, 0x1f, 0xab]" "[0x00, 0x1f, 0xab]"]
  by (simp add: generateSafeBoundary_def toString_hex_def hex_byte_def hex_digit_def
        unsafe_chars_def)

section \<open>MIME types\<close>

text \<open>
  C8, as amended. The extension is what follows the last dot of the file name (the whole
  name when it has no dot), in lower case. An extension of the table gets the table's
  type; the empty extension (an empty name, or a name that ends in a dot) gets
  \<^verbatim>\<open>text/plain\<close>, by the default \<^verbatim>\<open>extension || 'txt'\<close>; any other extension that is not a
  name inherited from \<^verbatim>\<open>Object.prototype\<close> gets \<^verbatim>\<open>application/octet-stream\<close>. The name
  \<^verbatim>\<open>a.pdf\<close> gets \<^verbatim>\<open>application/pdf\<close>. The part of an attachment without a \<^verbatim>\<open>mimeType\<close> (or with
  the empty string for it) starts with the delimiter and the line
  \<^verbatim>\<open>Content-Type: <type of its file name>; name="<file name>"\<close>, and the part of an attachment
  with a \<^verbatim>\<open>mimeType\<close> has that type there; so the part of an attachment \<^verbatim>\<open>a.pdf\<close> without a
  \<^verbatim>\<open>mimeType\<close> has the line \<^verbatim>\<open>Content-Type: application/pdf; name="a.pdf"\<close>, and that line is in
  the payload of each \<^verbatim>\<open>Email\<close> with a \<^verbatim>\<open>to\<close> list that has the attachment.
\<close>

theorem getMimeType_by_extension:
  "(map_of mimeTypes (toLowerCase (split_pop CHR ''.'' fname)) = Some t \<longrightarrow> getMimeType fname = t)
   \<and> (toLowerCase (split_pop CHR ''.'' fname) = [] \<longrightarrow> getMimeType fname = ''text/plain'')
   \<and> (toLowerCase (split_pop CHR ''.'' fname) \<noteq> []
        \<and> toLowerCase (split_pop CHR ''.'' fname) \<notin> fst ` set (mimeTypes @ inherited_properties)
        \<longrightarrow> getMimeType fname = ''application/octet-stream'')
   \<and> mimeTypes =
        [(''txt'', ''text/plain''), (''html'', ''text/html''), (''csv'', ''text/csv''),
         (''pdf'', ''application/pdf''), (''png'', ''image/png''), (''jpg'', ''image/jpeg''),
         (''jpeg'', ''image/jpeg''), (''gif'', ''image/gif''), (''zip'', ''application/zip'')]
   \<and> getMimeType ''a.pdf'' = ''application/pdf''
   \<and> (\<not> truthy (mimeType a) \<longrightarrow>
         (\<exists>rest. attachment_part boundary now a
            = ''--'' @ boundary @ CRLF
              @ ''Content-Type: '' @ getMimeType (filename a) @ ''; name='' @ DQ @ filename a @ DQ
              @ CRLF @ rest))
   \<and> (truthy (mimeType a) \<longrightarrow>
         (\<exists>rest. attachment_part boundary now a
            = ''--'' @ boundary @ CRLF
              @ ''Content-Type: '' @ the_string (mimeType a) @ ''; name='' @ DQ @ filename a @ DQ
              @ CRLF @ rest))
   \<and> attachment_part boundary now \<lparr>filename = ''a.pdf'', content = c, mimeType = None\<rparr>
       = ''--'' @ boundary @ CRLF
         @ ''Content-Type: application/pdf; name='' @ DQ @ ''a.pdf'' @ DQ @ CRLF
         @ ''Content-Description: a.pdf'' @ CRLF
         @ ''Content-Disposition: attachment; filename='' @ DQ @ ''a.pdf'' @ DQ @ '';'' @ CRLF
         @ ''    creation-date='' @ DQ @ now @ DQ @ '';'' @ CRLF
         @ ''Content-Transfer-Encoding: base64'' @ CRLF
         @ CRLF
         @ (if match_dot 72 c = [] then c else join CRLF (match_dot 72 c)) @ CRLF
         @ CRLF
   \<and> (e_to this = Some ts \<and> e_attachments this = Some as \<and> i < length as
        \<and> \<not> truthy (mimeType (as ! i)) \<longrightarrow>
         (\<exists>this' before after.
            getEmailData e this
            = Some (this',
                Inr (before
                     @ ''--'' @ generateSafeBoundary ''mixed_'' (randomBytes_mixed e) @ CRLF
                     @ ''Content-Type: '' @ getMimeType (filename (as ! i)) @ ''; name='' @ DQ
                       @ filename (as ! i) @ DQ @ CRLF
                     @ after))))"
proof -
  let ?ext = "toLowerCase (split_pop CHR ''.'' fname)"
  have 1: "getMimeType fname = t" if "map_of mimeTypes ?ext = Some t"
  proof -
    from that have "?ext \<noteq> []"
      by (auto simp: mimeTypes_def split: if_splits)
    with that show ?thesis
      by (simp add: getMimeType_def Let_def map_add_def)
  qed
  have 2: "getMimeType fname = ''text/plain''" if "?ext = []"
    using that by (simp add: getMimeType_def Let_def mimeTypes_def)
  have 3: "getMimeType fname = ''application/octet-stream''"
    if "?ext \<noteq> []" "?ext \<notin> fst ` set (mimeTypes @ inherited_properties)"
  proof -
    from that(2) have "map_of (mimeTypes @ inherited_properties) ?ext = None"
      by (simp only: map_of_eq_None_iff) simp
    with that(1) show ?thesis
      by (simp add: getMimeType_def Let_def map_add_def)
  qed
  have 4: "getMimeType ''a.pdf'' = ''application/pdf''"
    by code_simp
  have 5: "\<not> truthy (mimeType a) \<longrightarrow>
         (\<exists>rest. attachment_part boundary now a
            = ''--'' @ boundary @ CRLF
              @ ''Content-Type: '' @ getMimeType (filename a) @ ''; name='' @ DQ @ filename a @ DQ
              @ CRLF @ rest)"
    by (simp add: attachment_part_def Let_def)
  have 6: "truthy (mimeType a) \<longrightarrow>
         (\<exists>rest. attachment_part boundary now a
            = ''--'' @ boundary @ CRLF
              @ ''Content-Type: '' @ the_string (mimeType a) @ ''; name='' @ DQ @ filename a @ DQ
              @ CRLF @ rest)"
    by (simp add: attachment_part_def Let_def the_string_def)
  have 7: "attachment_part boundary now \<lparr>filename = ''a.pdf'', content = c, mimeType = None\<rparr>
       = ''--'' @ boundary @ CRLF
         @ ''Content-Type: application/pdf; name='' @ DQ @ ''a.pdf'' @ DQ @ CRLF
         @ ''Content-Description: a.pdf'' @ CRLF
         @ ''Content-Disposition: attachment; filename='' @ DQ @ ''a.pdf'' @ DQ @ '';'' @ CRLF
         @ ''    creation-date='' @ DQ @ now @ DQ @ '';'' @ CRLF
         @ ''Content-Transfer-Encoding: base64'' @ CRLF
         @ CRLF
         @ (if match_dot 72 c = [] then c else join CRLF (match_dot 72 c)) @ CRLF
         @ CRLF"
    by (simp add: attachment_part_def Let_def truthy_def 4)
  have 8: "\<exists>this' before after.
            getEmailData e this
            = Some (this',
                Inr (before
                     @ ''--'' @ generateSafeBoundary ''mixed_'' (randomBytes_mixed e) @ CRLF
                     @ ''Content-Type: '' @ getMimeType (filename (as ! i)) @ ''; name='' @ DQ
                       @ filename (as ! i) @ DQ @ CRLF
                     @ after))"
    if "e_to this = Some ts" "e_attachments this = Some as" "i < length as"
      "\<not> truthy (mimeType (as ! i))"
  proof -
    let ?M = "generateSafeBoundary ''mixed_'' (randomBytes_mixed e)"
    from getEmailData_attachment [OF that(1,2,3), of e] obtain before after where
      g: "getEmailData e this
          = Some (this\<lparr>e_headers := headers_after e this\<rparr>,
              Inr (before @ delimiter ?M
                   @ attachment_subpart (now_attachment e i) (as ! i) @ after))"
      by blast
    define rest where "rest =
        ''Content-Description: '' @ filename (as ! i) @ CRLF
        @ ''Content-Disposition: attachment; filename='' @ DQ @ filename (as ! i) @ DQ @ '';''
        @ CRLF
        @ ''    creation-date='' @ DQ @ now_attachment e i @ DQ @ '';'' @ CRLF
        @ ''Content-Transfer-Encoding: base64'' @ CRLF @ CRLF
        @ (if match_dot 72 (content (as ! i)) = [] then content (as ! i)
           else join CRLF (match_dot 72 (content (as ! i))))
        @ CRLF @ CRLF"
    have "before @ delimiter ?M @ attachment_subpart (now_attachment e i) (as ! i) @ after
          = before @ ''--'' @ ?M @ CRLF
            @ ''Content-Type: '' @ getMimeType (filename (as ! i)) @ ''; name='' @ DQ
              @ filename (as ! i) @ DQ @ CRLF
            @ (rest @ after)"
      using that(4) by (simp add: delimiter_def attachment_subpart_def rest_def)
    with g have "getEmailData e this
          = Some (this\<lparr>e_headers := headers_after e this\<rparr>,
              Inr (before @ ''--'' @ ?M @ CRLF
                   @ ''Content-Type: '' @ getMimeType (filename (as ! i)) @ ''; name='' @ DQ
                     @ filename (as ! i) @ DQ @ CRLF
                   @ (rest @ after)))"
      by (simp only:)
    then show ?thesis
      by (intro exI)
  qed
  from 1 2 3 have 9:
    "(map_of mimeTypes ?ext = Some t \<longrightarrow> getMimeType fname = t)
     \<and> (?ext = [] \<longrightarrow> getMimeType fname = ''text/plain'')
     \<and> (?ext \<noteq> [] \<and> ?ext \<notin> fst ` set (mimeTypes @ inherited_properties)
          \<longrightarrow> getMimeType fname = ''application/octet-stream'')"
    by blast
  have 10: "mimeTypes =
        [(''txt'', ''text/plain''), (''html'', ''text/html''), (''csv'', ''text/csv''),
         (''pdf'', ''application/pdf''), (''png'', ''image/png''), (''jpg'', ''image/jpeg''),
         (''jpeg'', ''image/jpeg''), (''gif'', ''image/gif''), (''zip'', ''application/zip'')]"
    by (simp add: mimeTypes_def)
  from 8 have 11: "e_to this = Some ts \<and> e_attachments this = Some as \<and> i < length as
        \<and> \<not> truthy (mimeType (as ! i)) \<longrightarrow>
         (\<exists>this' before after.
            getEmailData e this
            = Some (this',
                Inr (before
                     @ ''--'' @ generateSafeBoundary ''mixed_'' (randomBytes_mixed e) @ CRLF
                     @ ''Content-Type: '' @ getMimeType (filename (as ! i)) @ ''; name='' @ DQ
                       @ filename (as ! i) @ DQ @ CRLF
                     @ after)))"
    by (intro impI) (elim conjE)
  show ?thesis
    apply (intro conjI)
            apply (rule 9 [THEN conjunct1])
           apply (rule 9 [THEN conjunct2, THEN conjunct1])
          apply (rule 9 [THEN conjunct2, THEN conjunct2])
         apply (rule 10)
        apply (rule 4)
       apply (rule 5)
      apply (rule 6)
     apply (rule 7)
    apply (rule 11)
    done
qed

text \<open>
  File names with an extension of the table in upper case, with an unknown extension,
  without a dot and with a dot at the end; the part of the attachment \<^verbatim>\<open>a.pdf\<close>, which has no
  \<^verbatim>\<open>mimeType\<close>, and its place in the payload of an \<^verbatim>\<open>Email\<close> that has it as first attachment.
\<close>

theorem getMimeType_witness:
  "getMimeType ''photo.JPG'' = ''image/jpeg''
   \<and> getMimeType ''archive.tar.gz'' = ''application/octet-stream''
   \<and> getMimeType ''README'' = ''application/octet-stream''
   \<and> getMimeType ''notes.'' = ''text/plain''
   \<and> example_pdf = \<lparr>filename = ''a.pdf'', content = ''JVBERi0xLjQK'', mimeType = None\<rparr>
   \<and> attachment_part ''mixed_001fab'' ''Tue, 03 Nov 2026 10:00:01 GMT'' example_pdf
       = ''--mixed_001fab'' @ CRLF
         @ ''Content-Type: application/pdf; name='' @ DQ @ ''a.pdf'' @ DQ @ CRLF
         @ ''Content-Description: a.pdf'' @ CRLF
         @ ''Content-Disposition: attachment; filename='' @ DQ @ ''a.pdf'' @ DQ @ '';'' @ CRLF
         @ ''    creation-date='' @ DQ @ ''Tue, 03 Nov 2026 10:00:01 GMT'' @ DQ @ '';'' @ CRLF
         @ ''Content-Transfer-Encoding: base64'' @ CRLF
         @ CRLF
         @ ''JVBERi0xLjQK'' @ CRLF
         @ CRLF
   \<and> e_attachments example_full = Some [example_pdf, example_notes]
   \<and> (\<exists>this' before after.
         getEmailData first_call_env example_full
         = Some (this',
             Inr (before
                  @ ''--mixed_001fab'' @ CRLF
                  @ ''Content-Type: application/pdf; name='' @ DQ @ ''a.pdf'' @ DQ @ CRLF
                  @ after)))
   \<and> mimeType example_notes = Some ''text/x-notes''
   \<and> (\<exists>rest.
         attachment_part ''mixed_001fab'' ''Tue, 03 Nov 2026 10:00:02 GMT'' example_notes
         = ''--mixed_001fab'' @ CRLF
           @ ''Content-Type: text/x-notes; name='' @ DQ @ ''notes'' @ DQ @ CRLF
           @ rest)"
proof -
  have a: "toLowerCase (split_pop CHR ''.'' ''photo.JPG'') = ''jpg''"
    and b: "toLowerCase (split_pop CHR ''.'' ''archive.tar.gz'') = ''gz''"
    and c: "toLowerCase (split_pop CHR ''.'' ''README'') = ''readme''"
    and d: "toLowerCase (split_pop CHR ''.'' ''notes.'') = []"
    by code_simp+
  have 1: "getMimeType ''photo.JPG'' = ''image/jpeg''"
    using getMimeType_by_extension [where fname = "''photo.JPG''" and t = "''image/jpeg''"]
    by (simp add: a mimeTypes_def)
  have 2: "getMimeType ''archive.tar.gz'' = ''application/octet-stream''"
    using getMimeType_by_extension [where fname = "''archive.tar.gz''"]
    by (simp add: b mimeTypes_def inherited_properties_def)
  have 3: "getMimeType ''README'' = ''application/octet-stream''"
    using getMimeType_by_extension [where fname = "''README''"]
    by (simp add: c mimeTypes_def inherited_properties_def)
  have 4: "getMimeType ''notes.'' = ''text/plain''"
    using getMimeType_by_extension [where fname = "''notes.''"]
    by (simp add: d)
  have 5: "example_pdf = \<lparr>filename = ''a.pdf'', content = ''JVBERi0xLjQK'', mimeType = None\<rparr>"
    by (simp add: example_pdf_def)
  have "attachment_part ''mixed_001fab'' ''Tue, 03 Nov 2026 10:00:01 GMT''
          \<lparr>filename = ''a.pdf'', content = ''JVBERi0xLjQK'', mimeType = None\<rparr>
       = ''--'' @ ''mixed_001fab'' @ CRLF
         @ ''Content-Type: application/pdf; name='' @ DQ @ ''a.pdf'' @ DQ @ CRLF
         @ ''Content-Description: a.pdf'' @ CRLF
         @ ''Content-Disposition: attachment; filename='' @ DQ @ ''a.pdf'' @ DQ @ '';'' @ CRLF
         @ ''    creation-date='' @ DQ @ ''Tue, 03 Nov 2026 10:00:01 GMT'' @ DQ @ '';'' @ CRLF
         @ ''Content-Transfer-Encoding: base64'' @ CRLF
         @ CRLF
         @ (if match_dot 72 ''JVBERi0xLjQK'' = [] then ''JVBERi0xLjQK''
            else join CRLF (match_dot 72 ''JVBERi0xLjQK'')) @ CRLF
         @ CRLF"
    by (rule getMimeType_by_extension [where boundary = "''mixed_001fab''"
          and now = "''Tue, 03 Nov 2026 10:00:01 GMT''" and c = "''JVBERi0xLjQK''",
          THEN conjunct2, THEN conjunct2, THEN conjunct2, THEN conjunct2, THEN conjunct2,
          THEN conjunct2, THEN conjunct2, THEN conjunct1])
  then have 6: "attachment_part ''mixed_001fab'' ''Tue, 03 Nov 2026 10:00:01 GMT'' example_pdf
       = ''--mixed_001fab'' @ CRLF
         @ ''Content-Type: application/pdf; name='' @ DQ @ ''a.pdf'' @ DQ @ CRLF
         @ ''Content-Description: a.pdf'' @ CRLF
         @ ''Content-Disposition: attachment; filename='' @ DQ @ ''a.pdf'' @ DQ @ '';'' @ CRLF
         @ ''    creation-date='' @ DQ @ ''Tue, 03 Nov 2026 10:00:01 GMT'' @ DQ @ '';'' @ CRLF
         @ ''Content-Transfer-Encoding: base64'' @ CRLF
         @ CRLF
         @ ''JVBERi0xLjQK'' @ CRLF
         @ CRLF"
    unfolding 5 match_dot_pdf by simp
  have 7: "e_attachments example_full = Some [example_pdf, example_notes]"
    by (simp add: example_full_def)
  have "\<exists>this' before after.
         getEmailData first_call_env example_full
         = Some (this',
             Inr (before
                  @ ''--'' @ generateSafeBoundary ''mixed_'' (randomBytes_mixed first_call_env)
                  @ CRLF
                  @ ''Content-Type: '' @ getMimeType (filename ([example_pdf, example_notes] ! 0))
                  @ ''; name='' @ DQ @ filename ([example_pdf, example_notes] ! 0) @ DQ @ CRLF
                  @ after))"
    apply (rule mp [OF getMimeType_by_extension [where this = example_full
            and e = first_call_env and i = 0 and as = "[example_pdf, example_notes]"
            and ts = "[bare ''b@example.com'', \<lparr>name = Some ''Cy'', email = ''c@example.com''\<rparr>]",
            THEN conjunct2, THEN conjunct2, THEN conjunct2, THEN conjunct2, THEN conjunct2,
            THEN conjunct2, THEN conjunct2, THEN conjunct2]])
    apply (intro conjI)
       apply (rule full_to)
      apply (rule 7)
     apply simp
    apply (simp add: example_pdf_def truthy_def)
    done
  then have 8: "\<exists>this' before after.
         getEmailData first_call_env example_full
         = Some (this',
             Inr (before
                  @ ''--mixed_001fab'' @ CRLF
                  @ ''Content-Type: application/pdf; name='' @ DQ @ ''a.pdf'' @ DQ @ CRLF
                  @ after))"
    unfolding call_boundaries by (simp add: example_pdf_def getMimeType_pdf)
  have 9: "mimeType example_notes = Some ''text/x-notes''"
    by (simp add: example_notes_def)
  then have "truthy (mimeType example_notes)"
    by (simp add: truthy_def)
  with getMimeType_by_extension [where a = example_notes and boundary = "''mixed_001fab''"
      and now = "''Tue, 03 Nov 2026 10:00:02 GMT''"]
  have "\<exists>rest.
         attachment_part ''mixed_001fab'' ''Tue, 03 Nov 2026 10:00:02 GMT'' example_notes
         = ''--'' @ ''mixed_001fab'' @ CRLF
           @ ''Content-Type: '' @ the_string (mimeType example_notes) @ ''; name='' @ DQ
           @ filename example_notes @ DQ @ CRLF @ rest"
    by blast
  then have 10: "\<exists>rest.
         attachment_part ''mixed_001fab'' ''Tue, 03 Nov 2026 10:00:02 GMT'' example_notes
         = ''--mixed_001fab'' @ CRLF
           @ ''Content-Type: text/x-notes; name='' @ DQ @ ''notes'' @ DQ @ CRLF
           @ rest"
    unfolding 9 by (simp add: the_string_def example_notes_def)
  from 1 2 3 4 5 6 7 8 9 10 show ?thesis
    by (intro conjI)
qed

text \<open>
  C8 as stated fails: a file name that ends in a dot, and a file name without a dot that
  spells a key of the table, have no extension and do not get \<^verbatim>\<open>application/octet-stream\<close>.
\<close>

theorem getMimeType_missing_extension_counterexample:
  "getMimeType ''notes.'' = ''text/plain'' \<and> getMimeType ''zip'' = ''application/zip''"
  by code_simp

section \<open>The structure of the payload\<close>

text \<open>
  C1. For an \<^verbatim>\<open>Email\<close> with a \<^verbatim>\<open>to\<close> list (and an object for \<^verbatim>\<open>headers\<close>, whose keys are
  distinct), \<^verbatim>\<open>getEmailData\<close> returns: the header lines joined by CRLF, with
  \<^verbatim>\<open>MIME-Version: 1.0\<close> first, then one line for each entry of the header map, among them
  exactly one entry \<^verbatim>\<open>From\<close> and exactly one entry \<^verbatim>\<open>To\<close>, with the computed values, then
  \<^verbatim>\<open>Content-Type: multipart/mixed\<close> with the mixed boundary; a blank line; the delimiter of
  that same boundary; one \<^verbatim>\<open>multipart/alternative\<close> block that holds the \<^verbatim>\<open>text/plain\<close> part if
  \<^verbatim>\<open>text\<close> is set and then the \<^verbatim>\<open>text/html\<close> part if \<^verbatim>\<open>html\<close> is set (set meaning a non-empty
  string, as the source tests it), so both in that order when both are set; for each
  attachment, in the order of the input, the delimiter of the mixed boundary and the part of
  the attachment: its \<^verbatim>\<open>Content-Type\<close> (the \<^verbatim>\<open>mimeType\<close> given, or else the type of its file
  name) with its name, its \<^verbatim>\<open>Content-Description\<close>, its \<^verbatim>\<open>Content-Disposition\<close> with the
  creation date read at its turn, \<^verbatim>\<open>Content-Transfer-Encoding: base64\<close>, a blank line, and its
  content in lines of at most 72 characters; then the closing delimiter of the mixed
  boundary and a line with a single dot. When no key of the caller's headers has a colon in
  it, exactly one of the header lines has the name \<^verbatim>\<open>From\<close> and exactly one the name \<^verbatim>\<open>To\<close>.
\<close>

theorem getEmailData_structure:
  assumes "e_to this = Some ts" and "distinct (map fst (e_headers this))"
  shows "\<exists>this' textLines htmlLines.
      getEmailData e this
        = Some (this',
            Inr (join CRLF
                   ([''MIME-Version: 1.0''] @ map header_line (e_headers this')
                    @ [''Content-Type: multipart/mixed; boundary='' @ DQ
                       @ generateSafeBoundary ''mixed_'' (randomBytes_mixed e) @ DQ])
                 @ CRLF @ CRLF
                 @ delimiter (generateSafeBoundary ''mixed_'' (randomBytes_mixed e))
                 @ ''Content-Type: multipart/alternative; boundary='' @ DQ
                   @ generateSafeBoundary ''alternative_'' (randomBytes_alternative e) @ DQ
                   @ CRLF @ CRLF
                 @ concat (map (\<lambda>part.
                       delimiter (generateSafeBoundary ''alternative_'' (randomBytes_alternative e))
                       @ part)
                     ((if truthy (e_text this) then [text_subpart textLines] else [])
                      @ (if truthy (e_html this) then [html_subpart htmlLines] else [])))
                 @ close_delimiter (generateSafeBoundary ''alternative_'' (randomBytes_alternative e))
                 @ concat (map (\<lambda>(i, a).
                       delimiter (generateSafeBoundary ''mixed_'' (randomBytes_mixed e))
                       @ ''Content-Type: ''
                         @ (if truthy (mimeType a) then the_string (mimeType a)
                            else getMimeType (filename a))
                         @ ''; name='' @ DQ @ filename a @ DQ @ CRLF
                       @ ''Content-Description: '' @ filename a @ CRLF
                       @ ''Content-Disposition: attachment; filename='' @ DQ @ filename a @ DQ
                         @ '';'' @ CRLF
                       @ ''    creation-date='' @ DQ @ now_attachment e i @ DQ @ '';'' @ CRLF
                       @ ''Content-Transfer-Encoding: base64'' @ CRLF @ CRLF
                       @ (if match_dot 72 (content a) = [] then content a
                          else join CRLF (match_dot 72 (content a)))
                       @ CRLF @ CRLF)
                     (enumerate 0 (case e_attachments this of None \<Rightarrow> [] | Some as \<Rightarrow> as)))
                 @ close_delimiter (generateSafeBoundary ''mixed_'' (randomBytes_mixed e))
                 @ ''.'' @ CRLF))
      \<and> filter (\<lambda>kv. fst kv = ''From'') (e_headers this')
          = [(''From'', format_user (e_from this))]
      \<and> filter (\<lambda>kv. fst kv = ''To'') (e_headers this')
          = [(''To'', join '', '' (map format_user ts))]
      \<and> ((\<forall>k\<in>fst ` set (e_headers this). CHR '':'' \<notin> set k) \<longrightarrow>
            filter (\<lambda>line. header_name line = ''From'') (map header_line (e_headers this'))
              = [''From: '' @ format_user (e_from this)]
            \<and> filter (\<lambda>line. header_name line = ''To'') (map header_line (e_headers this'))
              = [''To: '' @ join '', '' (map format_user ts)])
      \<and> (truthy (e_text this) \<longrightarrow> wrapText (the_string (e_text this)) 998 = Some textLines)
      \<and> (truthy (e_html this) \<longrightarrow>
            wrapText (base64_encode (utf8 (the_string (e_html this)))) 76 = Some htmlLines)"
proof -
  let ?this' = "this\<lparr>e_headers := headers_after e this\<rparr>"
  from getEmailData_Some [OF assms(1), of e] obtain tl hl where
    g: "getEmailData e this = Some (?this', Inr (payload e ?this' tl hl))"
    and t: "truthy (e_text this) \<longrightarrow> wrapText (the_string (e_text this)) 998 = Some tl"
    and h: "truthy (e_html this) \<longrightarrow>
            wrapText (base64_encode (utf8 (the_string (e_html this)))) 76 = Some hl"
    by blast
  have d: "distinct (map fst (headers_after e this))"
    using assms by (rule headers_after_distinct)
  have f: "filter (\<lambda>kv. fst kv = ''From'') (e_headers ?this')
           = [(''From'', format_user (e_from this))]"
    using filter_key [OF d headers_after_From [OF assms(1)]] by simp
  have o: "filter (\<lambda>kv. fst kv = ''To'') (e_headers ?this')
           = [(''To'', join '', '' (map format_user ts))]"
    using filter_key [OF d headers_after_To [OF assms(1)]] by simp
  have l: "(\<forall>k\<in>fst ` set (e_headers this). CHR '':'' \<notin> set k) \<longrightarrow>
            filter (\<lambda>line. header_name line = ''From'') (map header_line (e_headers ?this'))
              = [''From: '' @ format_user (e_from this)]
            \<and> filter (\<lambda>line. header_name line = ''To'') (map header_line (e_headers ?this'))
              = [''To: '' @ join '', '' (map format_user ts)]"
  proof
    assume c: "\<forall>k\<in>fst ` set (e_headers this). CHR '':'' \<notin> set k"
    from header_lines_of_key [OF assms c headers_after_From [OF assms(1)]]
      header_lines_of_key [OF assms c headers_after_To [OF assms(1)]]
    show "filter (\<lambda>line. header_name line = ''From'') (map header_line (e_headers ?this'))
              = [''From: '' @ format_user (e_from this)]
            \<and> filter (\<lambda>line. header_name line = ''To'') (map header_line (e_headers ?this'))
              = [''To: '' @ join '', '' (map format_user ts)]"
      by simp
  qed
  show ?thesis
    apply (rule exI [of _ ?this'])
    apply (rule exI [of _ tl])
    apply (rule exI [of _ hl])
    apply (intro conjI)
          apply (simp only: g payload_def header_block_def mime_body_def attachment_subpart_def
              Let_def)
          apply simp
         apply (rule f)
        apply (rule o)
       apply (rule l)
      apply (rule t)
     apply (rule h)
    done
qed

text \<open>
  An \<^verbatim>\<open>Email\<close> with two recipients, both bodies, two attachments (the first without a
  \<^verbatim>\<open>mimeType\<close>, the second with 80 characters of content) and a custom header satisfies the
  hypotheses; its payload, in full.
\<close>

theorem getEmailData_structure_witness:
  "e_to example_full
     = Some [bare ''b@example.com'', \<lparr>name = Some ''Cy'', email = ''c@example.com''\<rparr>]
   \<and> e_headers example_full = [(''X-Tag'', ''t1'')]
   \<and> e_attachments example_full = Some [example_pdf, example_notes]
   \<and> mimeType example_pdf = None
   \<and> getEmailData first_call_env example_full =
     Some (example_full\<lparr>e_headers :=
             [(''X-Tag'', ''t1''),
              (''From'', ''Ann <a@example.com>''),
              (''To'', ''b@example.com, Cy <c@example.com>''),
              (''Reply-To'', ''r@example.com''),
              (''CC'', ''d@example.com''),
              (''Subject'', ''=?utf-8?b?Q2Fmw6k=?=''),
              (''Date'', ''Tue, 03 Nov 2026 10:00:00 GMT''),
              (''Message-ID'', ''<123e4567-e89b-42d3-a456-426614174000@example.com>'')]\<rparr>,
       Inr (''MIME-Version: 1.0'' @ CRLF
            @ ''X-Tag: t1'' @ CRLF
            @ ''From: Ann <a@example.com>'' @ CRLF
            @ ''To: b@example.com, Cy <c@example.com>'' @ CRLF
            @ ''Reply-To: r@example.com'' @ CRLF
            @ ''CC: d@example.com'' @ CRLF
            @ ''Subject: =?utf-8?b?Q2Fmw6k=?='' @ CRLF
            @ ''Date: Tue, 03 Nov 2026 10:00:00 GMT'' @ CRLF
            @ ''Message-ID: <123e4567-e89b-42d3-a456-426614174000@example.com>'' @ CRLF
            @ ''Content-Type: multipart/mixed; boundary='' @ DQ @ ''mixed_001fab'' @ DQ @ CRLF
            @ CRLF
            @ ''--mixed_001fab'' @ CRLF
            @ ''Content-Type: multipart/alternative; boundary='' @ DQ @ ''alternative_c4059e'' @ DQ @ CRLF
            @ CRLF
            @ ''--alternative_c4059e'' @ CRLF
            @ ''Content-Type: text/plain; charset='' @ DQ @ ''utf-8'' @ DQ @ CRLF
            @ CRLF
            @ ''hello world'' @ CRLF
            @ CRLF
            @ ''--alternative_c4059e'' @ CRLF
            @ ''Content-Type: text/html; charset='' @ DQ @ ''utf-8'' @ DQ @ CRLF
            @ ''Content-Transfer-Encoding: base64'' @ CRLF
            @ CRLF
            @ ''PHA+aMOpPC9wPg=='' @ CRLF
            @ CRLF
            @ ''--alternative_c4059e--'' @ CRLF
            @ ''--mixed_001fab'' @ CRLF
            @ ''Content-Type: application/pdf; name='' @ DQ @ ''a.pdf'' @ DQ @ CRLF
            @ ''Content-Description: a.pdf'' @ CRLF
            @ ''Content-Disposition: attachment; filename='' @ DQ @ ''a.pdf'' @ DQ @ '';'' @ CRLF
            @ ''    creation-date='' @ DQ @ ''Tue, 03 Nov 2026 10:00:01 GMT'' @ DQ @ '';'' @ CRLF
            @ ''Content-Transfer-Encoding: base64'' @ CRLF
            @ CRLF
            @ ''JVBERi0xLjQK'' @ CRLF
            @ CRLF
            @ ''--mixed_001fab'' @ CRLF
            @ ''Content-Type: text/x-notes; name='' @ DQ @ ''notes'' @ DQ @ CRLF
            @ ''Content-Description: notes'' @ CRLF
            @ ''Content-Disposition: attachment; filename='' @ DQ @ ''notes'' @ DQ @ '';'' @ CRLF
            @ ''    creation-date='' @ DQ @ ''Tue, 03 Nov 2026 10:00:02 GMT'' @ DQ @ '';'' @ CRLF
            @ ''Content-Transfer-Encoding: base64'' @ CRLF
            @ CRLF
            @ ''MDEyMzQ1Njc4OTAxMjM0NTY3ODkwMTIzNDU2Nzg5MDEyMzQ1Njc4OTAxMjM0NTY3ODkwMTIz'' @ CRLF
            @ ''NDU2Nzg5'' @ CRLF
            @ CRLF
            @ ''--mixed_001fab--'' @ CRLF
            @ ''.'' @ CRLF))
   \<and> filter (\<lambda>line. header_name line = ''From'')
         (map header_line (headers_after first_call_env example_full))
       = [''From: Ann <a@example.com>'']
   \<and> filter (\<lambda>line. header_name line = ''To'')
         (map header_line (headers_after first_call_env example_full))
       = [''To: b@example.com, Cy <c@example.com>'']"
proof -
  have c: "\<forall>k\<in>fst ` set (e_headers example_full). CHR '':'' \<notin> set k"
    and hs: "e_headers example_full = [(''X-Tag'', ''t1'')]"
    and f: "e_text example_full = Some ''hello world''"
      "e_html example_full = Some (''<p>h'' @ [CHR 0xE9] @ ''</p>'')"
      "e_attachments example_full = Some [example_pdf, example_notes]"
    and u: "e_from example_full = \<lparr>name = Some ''Ann'', email = ''a@example.com''\<rparr>"
    by (simp_all add: example_full_def)
  from getEmailData_structure [OF full_to full_distinct, of first_call_env] obtain this' where
    "\<exists>p. getEmailData first_call_env example_full = Some (this', Inr p)"
    and l: "(\<forall>k\<in>fst ` set (e_headers example_full). CHR '':'' \<notin> set k) \<longrightarrow>
            filter (\<lambda>line. header_name line = ''From'') (map header_line (e_headers this'))
              = [''From: '' @ format_user (e_from example_full)]
            \<and> filter (\<lambda>line. header_name line = ''To'') (map header_line (e_headers this'))
              = [''To: '' @ join '', ''
                   (map format_user
                      [bare ''b@example.com'', \<lparr>name = Some ''Cy'', email = ''c@example.com''\<rparr>])]"
    by blast
  then have "this' = example_full\<lparr>e_headers := headers_after first_call_env example_full\<rparr>"
    using getEmailData_Some_headers [OF full_to] by blast
  with l c have 1: "filter (\<lambda>line. header_name line = ''From'')
         (map header_line (headers_after first_call_env example_full))
       = [''From: Ann <a@example.com>'']"
    and 2: "filter (\<lambda>line. header_name line = ''To'')
         (map header_line (headers_after first_call_env example_full))
       = [''To: b@example.com, Cy <c@example.com>'']"
    by (simp_all add: u format_user_def truthy_def bare_def)
  have 3: "getEmailData first_call_env example_full =
     Some (example_full\<lparr>e_headers :=
             [(''X-Tag'', ''t1''),
              (''From'', ''Ann <a@example.com>''),
              (''To'', ''b@example.com, Cy <c@example.com>''),
              (''Reply-To'', ''r@example.com''),
              (''CC'', ''d@example.com''),
              (''Subject'', ''=?utf-8?b?Q2Fmw6k=?=''),
              (''Date'', ''Tue, 03 Nov 2026 10:00:00 GMT''),
              (''Message-ID'', ''<123e4567-e89b-42d3-a456-426614174000@example.com>'')]\<rparr>,
       Inr (''MIME-Version: 1.0'' @ CRLF
            @ ''X-Tag: t1'' @ CRLF
            @ ''From: Ann <a@example.com>'' @ CRLF
            @ ''To: b@example.com, Cy <c@example.com>'' @ CRLF
            @ ''Reply-To: r@example.com'' @ CRLF
            @ ''CC: d@example.com'' @ CRLF
            @ ''Subject: =?utf-8?b?Q2Fmw6k=?='' @ CRLF
            @ ''Date: Tue, 03 Nov 2026 10:00:00 GMT'' @ CRLF
            @ ''Message-ID: <123e4567-e89b-42d3-a456-426614174000@example.com>'' @ CRLF
            @ ''Content-Type: multipart/mixed; boundary='' @ DQ @ ''mixed_001fab'' @ DQ @ CRLF
            @ CRLF
            @ ''--mixed_001fab'' @ CRLF
            @ ''Content-Type: multipart/alternative; boundary='' @ DQ @ ''alternative_c4059e'' @ DQ @ CRLF
            @ CRLF
            @ ''--alternative_c4059e'' @ CRLF
            @ ''Content-Type: text/plain; charset='' @ DQ @ ''utf-8'' @ DQ @ CRLF
            @ CRLF
            @ ''hello world'' @ CRLF
            @ CRLF
            @ ''--alternative_c4059e'' @ CRLF
            @ ''Content-Type: text/html; charset='' @ DQ @ ''utf-8'' @ DQ @ CRLF
            @ ''Content-Transfer-Encoding: base64'' @ CRLF
            @ CRLF
            @ ''PHA+aMOpPC9wPg=='' @ CRLF
            @ CRLF
            @ ''--alternative_c4059e--'' @ CRLF
            @ ''--mixed_001fab'' @ CRLF
            @ ''Content-Type: application/pdf; name='' @ DQ @ ''a.pdf'' @ DQ @ CRLF
            @ ''Content-Description: a.pdf'' @ CRLF
            @ ''Content-Disposition: attachment; filename='' @ DQ @ ''a.pdf'' @ DQ @ '';'' @ CRLF
            @ ''    creation-date='' @ DQ @ ''Tue, 03 Nov 2026 10:00:01 GMT'' @ DQ @ '';'' @ CRLF
            @ ''Content-Transfer-Encoding: base64'' @ CRLF
            @ CRLF
            @ ''JVBERi0xLjQK'' @ CRLF
            @ CRLF
            @ ''--mixed_001fab'' @ CRLF
            @ ''Content-Type: text/x-notes; name='' @ DQ @ ''notes'' @ DQ @ CRLF
            @ ''Content-Description: notes'' @ CRLF
            @ ''Content-Disposition: attachment; filename='' @ DQ @ ''notes'' @ DQ @ '';'' @ CRLF
            @ ''    creation-date='' @ DQ @ ''Tue, 03 Nov 2026 10:00:02 GMT'' @ DQ @ '';'' @ CRLF
            @ ''Content-Transfer-Encoding: base64'' @ CRLF
            @ CRLF
            @ ''MDEyMzQ1Njc4OTAxMjM0NTY3ODkwMTIzNDU2Nzg5MDEyMzQ1Njc4OTAxMjM0NTY3ODkwMTIz'' @ CRLF
            @ ''NDU2Nzg5'' @ CRLF
            @ CRLF
            @ ''--mixed_001fab--'' @ CRLF
            @ ''.'' @ CRLF))"
    unfolding full_call [OF full_to f call_boundaries(1,2)] full_headers
    by (simp add: header_line_def first_call_env_def example_full_body_def)
  have 4: "mimeType example_pdf = None"
    by (simp add: example_pdf_def)
  from full_to hs f(3) 4 3 1 2 show ?thesis
    by (intro conjI)
qed

section \<open>The subject\<close>




section \<open>Wrapping and the round trips\<close>

text \<open>
  C5. For every text and every positive limit \<^verbatim>\<open>wrapText\<close> returns, every line it returns is
  at most the limit long, and the words of the lines, one line after the other, are the
  words of the text with each word longer than the limit replaced by its pieces of the
  fixed size (which put together give the word back); so when no word is longer than the
  limit, as for a body wrapped at 998 whose words are at most 998 long, the words of the
  lines are the words of the text. For a body in HTML, encoding its UTF-8 bytes in base64,
  wrapping at 76, joining the lines with CRLF, removing the line breaks and decoding gives
  the bytes back.
\<close>

theorem wrapText_round_trip:
  assumes "0 < n"
  shows "(\<exists>lines. wrapText t n = Some lines
          \<and> (\<forall>l\<in>set lines. length l \<le> n)
          \<and> concat (map match_nonspace lines) = concat (map (pieces n) (match_nonspace t))
          \<and> ((\<forall>w\<in>set (match_nonspace t). length w \<le> n) \<longrightarrow>
                concat (map match_nonspace lines) = match_nonspace t))
       \<and> (\<forall>w. concat (pieces n w) = w \<and> (length w \<le> n \<longrightarrow> pieces n w = [w])
              \<and> (n < length w \<longrightarrow> pieces n w = take n w # slices n (drop n w)))
       \<and> (\<exists>lines. wrapText (base64_encode (utf8 h)) 76 = Some lines
              \<and> base64_decode (remove_line_breaks (join CRLF lines)) = utf8 h)"
proof -
  from wrapText_ok [OF assms, of t] obtain lines where
    l: "wrapText t n = Some lines" "\<forall>l\<in>set lines. length l \<le> n"
      "concat (map match_nonspace lines) = concat (map (pieces n) (match_nonspace t))"
    by blast
  have "(\<forall>w\<in>set (match_nonspace t). length w \<le> n) \<longrightarrow>
          concat (map match_nonspace lines) = match_nonspace t"
    using l(3) by (simp add: pieces_short)
  with l have 1: "\<exists>lines. wrapText t n = Some lines
          \<and> (\<forall>l\<in>set lines. length l \<le> n)
          \<and> concat (map match_nonspace lines) = concat (map (pieces n) (match_nonspace t))
          \<and> ((\<forall>w\<in>set (match_nonspace t). length w \<le> n) \<longrightarrow>
                concat (map match_nonspace lines) = match_nonspace t)"
    by blast
  have 2: "concat (pieces n w) = w \<and> (length w \<le> n \<longrightarrow> pieces n w = [w])
              \<and> (n < length w \<longrightarrow> pieces n w = take n w # slices n (drop n w))" for w
  proof (intro conjI impI)
    show "concat (pieces n w) = w"
      using assms by (rule pieces_concat)
    show "pieces n w = [w]" if "length w \<le> n"
      using that by (simp add: pieces_def)
    show "pieces n w = take n w # slices n (drop n w)" if "n < length w"
    proof -
      from that have "w \<noteq> []" by auto
      with that assms show ?thesis
        by (simp add: pieces_def slices.simps [of n w])
    qed
  qed
  from 1 2 html_round_trip [of h] show ?thesis
    by blast
qed

theorem wrapText_witness:
  "(0::nat) < 10
   \<and> wrapText ''hello   world thisisaverylongwordthatmustbesplit is a  test'' 10
       = Some [''hello'', ''world'', ''thisisaver'', ''ylongwordt'', ''hatmustbes'', ''plit'',
               ''is a test'']
   \<and> concat (map match_nonspace
         [''hello'', ''world'', ''thisisaver'', ''ylongwordt'', ''hatmustbes'', ''plit'',
          ''is a test''])
       = [''hello'', ''world'', ''thisisaver'', ''ylongwordt'', ''hatmustbes'', ''plit'',
          ''is'', ''a'', ''test'']"
proof -
  have n: "(0::nat) < 10" by simp
  from wrapText_round_trip [OF n, of "''hello   world thisisaverylongwordthatmustbesplit is a  test''"]
  obtain lines where
    "wrapText ''hello   world thisisaverylongwordthatmustbesplit is a  test'' 10 = Some lines"
    "concat (map match_nonspace lines)
     = concat (map (pieces 10)
         (match_nonspace ''hello   world thisisaverylongwordthatmustbesplit is a  test''))"
    by blast
  then have "concat (map match_nonspace
         [''hello'', ''world'', ''thisisaver'', ''ylongwordt'', ''hatmustbes'', ''plit'',
          ''is a test''])
     = concat (map (pieces 10)
         [''hello'', ''world'', ''thisisaverylongwordthatmustbesplit'', ''is'', ''a'', ''test''])"
    unfolding example_wrap example_words by simp
  also have "\<dots> = [''hello'', ''world'', ''thisisaver'', ''ylongwordt'', ''hatmustbes'', ''plit'',
          ''is'', ''a'', ''test'']"
    by (simp add: pieces_def example_slices)
  finally show ?thesis
    using n example_wrap by (intro conjI)
qed

section \<open>Custom headers and reserved keys\<close>

text \<open>
  C2, as amended. For an \<^verbatim>\<open>Email\<close> with a \<^verbatim>\<open>to\<close> list, \<^verbatim>\<open>getEmailData\<close> emits one header line for
  each entry of the header map it leaves in the object. Every key the caller supplied is
  still there, and a key that is not reserved keeps the caller's value. \<^verbatim>\<open>From\<close>, \<^verbatim>\<open>To\<close>,
  \<^verbatim>\<open>Subject\<close> and \<^verbatim>\<open>Date\<close> get the computed value, whatever the caller supplied. \<^verbatim>\<open>Reply-To\<close>
  gets the computed value when the \<^verbatim>\<open>Email\<close> has a \<^verbatim>\<open>reply\<close>, and \<^verbatim>\<open>CC\<close> when it has a \<^verbatim>\<open>cc\<close>;
  without one the caller's entry, if any, is kept. \<^verbatim>\<open>Message-ID\<close> keeps the caller's value
  when that is a non-empty string, and otherwise is \<^verbatim>\<open><UUID@domain>\<close>, the domain being what
  follows the last \<^verbatim>\<open>@\<close> of the \<^verbatim>\<open>From\<close> address.
\<close>

theorem reserved_and_custom_headers:
  assumes "e_to this = Some ts"
  shows "\<exists>this' textLines htmlLines.
      getEmailData e this
        = Some (this', Inr (header_block e this' @ CRLF @ CRLF
                            @ mime_body e this' textLines htmlLines))
      \<and> (\<forall>k. k \<in> fst ` set (e_headers this) \<longrightarrow> k \<in> fst ` set (e_headers this'))
      \<and> (\<forall>k. k \<notin> set reserved_keys \<longrightarrow> map_of (e_headers this') k = map_of (e_headers this) k)
      \<and> map_of (e_headers this') ''From'' = Some (format_user (e_from this))
      \<and> map_of (e_headers this') ''To'' = Some (join '', '' (map format_user ts))
      \<and> map_of (e_headers this') ''Subject''
          = Some (''=?utf-8?b?'' @ base64_encode (utf8 (e_subject this)) @ ''?='')
      \<and> map_of (e_headers this') ''Date'' = Some (now_header e)
      \<and> map_of (e_headers this') ''Reply-To''
          = (case e_reply this of
               None \<Rightarrow> map_of (e_headers this) ''Reply-To''
             | Some r \<Rightarrow> Some (format_user r))
      \<and> map_of (e_headers this') ''CC''
          = (case e_cc this of
               None \<Rightarrow> map_of (e_headers this) ''CC''
             | Some cs \<Rightarrow> Some (join '', '' (map format_user cs)))
      \<and> map_of (e_headers this') ''Message-ID''
          = Some (if truthy (map_of (e_headers this) ''Message-ID'')
                  then the_string (map_of (e_headers this) ''Message-ID'')
                  else ''<'' @ randomUUID e @ ''@'' @ split_pop CHR ''@'' (email (e_from this))
                       @ ''>'')
      \<and> (\<forall>local domain. email (e_from this) = local @ ''@'' @ domain \<and> CHR ''@'' \<notin> set domain
            \<longrightarrow> split_pop CHR ''@'' (email (e_from this)) = domain)"
proof -
  let ?this' = "this\<lparr>e_headers := headers_after e this\<rparr>"
  from getEmailData_Some [OF assms, of e] obtain tl hl where
    "getEmailData e this = Some (?this', Inr (payload e ?this' tl hl))"
    by blast
  then have 1: "getEmailData e this
        = Some (?this', Inr (header_block e ?this' @ CRLF @ CRLF @ mime_body e ?this' tl hl))"
    by (simp only: payload_def)
  have h: "e_headers ?this' = headers_after e this"
    by simp
  have 2: "\<forall>k. k \<in> fst ` set (e_headers this) \<longrightarrow> k \<in> fst ` set (e_headers ?this')"
    unfolding h using headers_after_keep_keys [OF assms] by blast
  have 3: "\<forall>k. k \<notin> set reserved_keys \<longrightarrow> map_of (e_headers ?this') k = map_of (e_headers this) k"
    unfolding h using headers_after_other [OF assms] by blast
  have 4: "\<forall>local domain. email (e_from this) = local @ ''@'' @ domain \<and> CHR ''@'' \<notin> set domain
            \<longrightarrow> split_pop CHR ''@'' (email (e_from this)) = domain"
    using split_pop_domain [of "CHR ''@''"] by auto
  have 5: "map_of (e_headers ?this') ''Message-ID''
          = Some (if truthy (map_of (e_headers this) ''Message-ID'')
                  then the_string (map_of (e_headers this) ''Message-ID'')
                  else ''<'' @ randomUUID e @ ''@'' @ split_pop CHR ''@'' (email (e_from this))
                       @ ''>'')"
    unfolding h headers_after_Message_ID [OF assms] generated_id_def ..
  show ?thesis
    apply (rule exI [of _ ?this'])
    apply (rule exI [of _ tl])
    apply (rule exI [of _ hl])
    apply (intro conjI)
              apply (rule 1)
             apply (rule 2)
            apply (rule 3)
           apply (simp only: h headers_after_From [OF assms])
          apply (simp only: h headers_after_To [OF assms])
         apply (simp only: h headers_after_Subject [OF assms])
        apply (simp only: h headers_after_Date [OF assms])
       apply (simp only: h headers_after_Reply [OF assms])
      apply (simp only: h headers_after_CC [OF assms])
     apply (rule 5)
    apply (rule 4)
    done
qed

text \<open>
  An \<^verbatim>\<open>Email\<close> with two recipients, a \<^verbatim>\<open>reply\<close>, a \<^verbatim>\<open>cc\<close>, and custom headers \<^verbatim>\<open>X-Tag\<close>, \<^verbatim>\<open>From\<close>,
  \<^verbatim>\<open>Reply-To\<close> and \<^verbatim>\<open>Message-ID\<close>: the header map after the call.
\<close>

theorem reserved_and_custom_headers_witness:
  "e_to example_custom
     = Some [bare ''b@example.com'', \<lparr>name = Some ''Cy'', email = ''c@example.com''\<rparr>]
   \<and> e_headers example_custom
       = [(''X-Tag'', ''t1''), (''From'', ''spoof@example.org''),
          (''Reply-To'', ''other@example.org''), (''Message-ID'', ''<custom@id>'')]
   \<and> map_of (headers_after example_env example_custom) ''X-Tag'' = Some ''t1''
   \<and> map_of (headers_after example_env example_custom) ''From'' = Some ''a@example.com''
   \<and> map_of (headers_after example_env example_custom) ''To''
       = Some ''b@example.com, Cy <c@example.com>''
   \<and> map_of (headers_after example_env example_custom) ''Reply-To'' = Some ''Rep <r@example.com>''
   \<and> map_of (headers_after example_env example_custom) ''CC''
       = Some ''d@example.com, e@example.com''
   \<and> map_of (headers_after example_env example_custom) ''Subject'' = Some ''=?utf-8?b?SGk=?=''
   \<and> map_of (headers_after example_env example_custom) ''Message-ID'' = Some ''<custom@id>''
   \<and> map_of (headers_after example_env example_custom) ''Date''
       = Some ''Tue, 03 Nov 2026 10:00:00 GMT''
   \<and> map fst (headers_after example_env example_custom)
       = [''X-Tag'', ''From'', ''Reply-To'', ''Message-ID'', ''To'', ''CC'', ''Subject'', ''Date'']"
proof -
  have hs: "e_headers example_custom
       = [(''X-Tag'', ''t1''), (''From'', ''spoof@example.org''),
          (''Reply-To'', ''other@example.org''), (''Message-ID'', ''<custom@id>'')]"
    by (simp add: example_custom_def)
  from reserved_and_custom_headers [OF example_custom_to, of example_env] obtain this' where
    g: "\<exists>p. getEmailData example_env example_custom = Some (this', Inr p)"
    and o: "\<forall>k. k \<notin> set reserved_keys \<longrightarrow>
              map_of (e_headers this') k = map_of (e_headers example_custom) k"
    and f: "map_of (e_headers this') ''From'' = Some (format_user (e_from example_custom))"
    and t: "map_of (e_headers this') ''To''
          = Some (join '', '' (map format_user
              [bare ''b@example.com'', \<lparr>name = Some ''Cy'', email = ''c@example.com''\<rparr>]))"
    and s: "map_of (e_headers this') ''Subject''
          = Some (''=?utf-8?b?'' @ base64_encode (utf8 (e_subject example_custom)) @ ''?='')"
    and d: "map_of (e_headers this') ''Date'' = Some (now_header example_env)"
    and r: "map_of (e_headers this') ''Reply-To''
          = (case e_reply example_custom of
               None \<Rightarrow> map_of (e_headers example_custom) ''Reply-To''
             | Some r \<Rightarrow> Some (format_user r))"
    and c: "map_of (e_headers this') ''CC''
          = (case e_cc example_custom of
               None \<Rightarrow> map_of (e_headers example_custom) ''CC''
             | Some cs \<Rightarrow> Some (join '', '' (map format_user cs)))"
    and m: "map_of (e_headers this') ''Message-ID''
          = Some (if truthy (map_of (e_headers example_custom) ''Message-ID'')
                  then the_string (map_of (e_headers example_custom) ''Message-ID'')
                  else ''<'' @ randomUUID example_env @ ''@''
                       @ split_pop CHR ''@'' (email (e_from example_custom)) @ ''>'')"
    by blast
  from g have "this' = example_custom\<lparr>e_headers := headers_after example_env example_custom\<rparr>"
    using getEmailData_Some_headers [OF example_custom_to] by blast
  then have h: "e_headers this' = headers_after example_env example_custom"
    by simp
  have "''X-Tag'' \<notin> set reserved_keys"
    by (simp add: reserved_keys_def)
  with o have 1: "map_of (headers_after example_env example_custom) ''X-Tag'' = Some ''t1''"
    unfolding h by (simp add: example_custom_def)
  from f have 2: "map_of (headers_after example_env example_custom) ''From'' = Some ''a@example.com''"
    unfolding h by (simp add: example_custom_def example_email_def format_user_def truthy_def bare_def)
  from t have 3: "map_of (headers_after example_env example_custom) ''To''
       = Some ''b@example.com, Cy <c@example.com>''"
    unfolding h by (simp add: format_user_def truthy_def bare_def)
  from r have 4: "map_of (headers_after example_env example_custom) ''Reply-To''
      = Some ''Rep <r@example.com>''"
    unfolding h by (simp add: example_custom_def format_user_def truthy_def)
  from c have 5: "map_of (headers_after example_env example_custom) ''CC''
       = Some ''d@example.com, e@example.com''"
    unfolding h by (simp add: example_custom_def format_user_def truthy_def bare_def)
  from s have 6: "map_of (headers_after example_env example_custom) ''Subject''
       = Some ''=?utf-8?b?SGk=?=''"
    unfolding h by (simp add: example_custom_def example_email_def base64_Hi)
  from m have 7: "map_of (headers_after example_env example_custom) ''Message-ID''
      = Some ''<custom@id>''"
    unfolding h by (simp add: example_custom_def truthy_def the_string_def)
  from d have 8: "map_of (headers_after example_env example_custom) ''Date''
       = Some ''Tue, 03 Nov 2026 10:00:00 GMT''"
    unfolding h by (simp add: example_env_def)
  have 9: "map fst (headers_after example_env example_custom)
       = [''X-Tag'', ''From'', ''Reply-To'', ''Message-ID'', ''To'', ''CC'', ''Subject'', ''Date'']"
    by (subst headers_after_eq [OF example_custom_to])
       (simp add: Let_def example_custom_def example_email_def truthy_def)
  from example_custom_to hs 1 2 3 4 5 6 7 8 9 show ?thesis
    by (intro conjI)
qed

text \<open>
  C2 as stated fails: without a \<^verbatim>\<open>reply\<close>, the \<^verbatim>\<open>Reply-To\<close> of the caller is not overwritten; it
  is emitted as the caller gave it.
\<close>

theorem reply_to_kept_counterexample:
  "e_reply example_reply_header = None
   \<and> e_headers example_reply_header = [(''Reply-To'', ''other@example.org'')]
   \<and> getEmailData example_env example_reply_header
     = Some (example_reply_header\<lparr>e_headers :=
               [(''Reply-To'', ''other@example.org''),
                (''From'', ''a@example.com''), (''To'', ''b@example.com''),
                (''Subject'', ''=?utf-8?b?SGk=?=''),
                (''Date'', ''Tue, 03 Nov 2026 10:00:00 GMT''),
                (''Message-ID'', ''<123e4567-e89b-42d3-a456-426614174000@example.com>'')]\<rparr>,
         Inr (''MIME-Version: 1.0'' @ CRLF
              @ ''Reply-To: other@example.org'' @ CRLF
              @ ''From: a@example.com'' @ CRLF
              @ ''To: b@example.com'' @ CRLF
              @ ''Subject: =?utf-8?b?SGk=?='' @ CRLF
              @ ''Date: Tue, 03 Nov 2026 10:00:00 GMT'' @ CRLF
              @ ''Message-ID: <123e4567-e89b-42d3-a456-426614174000@example.com>'' @ CRLF
              @ ''Content-Type: multipart/mixed; boundary='' @ DQ @ ''mixed_001fab'' @ DQ @ CRLF
              @ CRLF
              @ ''--mixed_001fab'' @ CRLF
              @ ''Content-Type: multipart/alternative; boundary='' @ DQ @ ''alternative_001fab'' @ DQ @ CRLF
              @ CRLF
              @ ''--alternative_001fab'' @ CRLF
              @ ''Content-Type: text/plain; charset='' @ DQ @ ''utf-8'' @ DQ @ CRLF
              @ CRLF
              @ ''hello'' @ CRLF
              @ CRLF
              @ ''--alternative_001fab--'' @ CRLF
              @ ''--mixed_001fab--'' @ CRLF
              @ ''.'' @ CRLF))"
proof -
  have f: "e_text example_reply_header = Some ''hello''" "e_html example_reply_header = None"
    "e_attachments example_reply_header = None" "e_reply example_reply_header = None"
    "e_headers example_reply_header = [(''Reply-To'', ''other@example.org'')]"
    by (simp_all add: example_reply_header_def example_email_def)
  show ?thesis
    unfolding example_call [OF example_reply_header_to f(1,2,3)] example_reply_header_headers
    by (simp add: f header_line_def)
qed

section \<open>The \<^verbatim>\<open>bcc\<close> list stays out of the payload\<close>

text \<open>
  C3, as amended. \<^verbatim>\<open>getEmailData\<close> always returns, and what it returns or throws, and the
  header map it leaves, are the same whatever the \<^verbatim>\<open>bcc\<close> list is, with the same clock and
  randomness: two Messages that differ only in \<^verbatim>\<open>bcc\<close> give identical payloads. It writes no
  \<^verbatim>\<open>BCC\<close> header: the entry under \<^verbatim>\<open>BCC\<close> after the call is the one the caller's custom
  headers had before, so without such a custom header the payload has no \<^verbatim>\<open>BCC\<close> line.
\<close>

theorem bcc_never_emitted:
  "map_option snd (getEmailData e (this\<lparr>e_bcc := b\<rparr>)) = map_option snd (getEmailData e this)
   \<and> map_option (\<lambda>p. e_headers (fst p)) (getEmailData e (this\<lparr>e_bcc := b\<rparr>))
       = map_option (\<lambda>p. e_headers (fst p)) (getEmailData e this)
   \<and> (\<exists>r. getEmailData e this = Some r)
   \<and> (\<forall>this' r. getEmailData e this = Some (this', r) \<longrightarrow>
         map_of (e_headers this') ''BCC'' = map_of (e_headers this) ''BCC''
         \<and> (''BCC'' \<notin> fst ` set (e_headers this) \<longrightarrow> ''BCC'' \<notin> fst ` set (e_headers this')))"
proof -
  obtain r where r: "getEmailData e this = Some r"
    using getEmailData_returns by blast
  have 1: "map_option snd (getEmailData e (this\<lparr>e_bcc := b\<rparr>))
      = map_option snd (getEmailData e this)"
    by (simp add: getEmailData_bcc r)
  have 2: "map_option (\<lambda>p. e_headers (fst p)) (getEmailData e (this\<lparr>e_bcc := b\<rparr>))
       = map_option (\<lambda>p. e_headers (fst p)) (getEmailData e this)"
    by (simp add: getEmailData_bcc r)
  have 3: "map_of (e_headers this') ''BCC'' = map_of (e_headers this) ''BCC''
         \<and> (''BCC'' \<notin> fst ` set (e_headers this) \<longrightarrow> ''BCC'' \<notin> fst ` set (e_headers this'))"
    if "getEmailData e this = Some (this', r')" for this' r'
  proof -
    from that have m: "map_of (e_headers this') ''BCC'' = map_of (e_headers this) ''BCC''"
      by (rule getEmailData_BCC_entry)
    have "''BCC'' \<notin> fst ` set (e_headers this') \<longleftrightarrow> ''BCC'' \<notin> fst ` set (e_headers this)"
      unfolding map_of_eq_None_iff [symmetric] m ..
    with m show ?thesis by blast
  qed
  from 1 2 3 r show ?thesis
    by blast
qed

theorem bcc_never_emitted_witness:
  "e_bcc example_bcc = Some [bare ''hidden@example.com'']
   \<and> map_option snd (getEmailData example_env example_bcc)
       = map_option snd (getEmailData example_env (example_bcc\<lparr>e_bcc := None\<rparr>))
   \<and> map_option (\<lambda>p. map_of (e_headers (fst p)) ''BCC'') (getEmailData example_env example_bcc)
       = Some None"
proof -
  have b: "e_bcc example_bcc = Some [bare ''hidden@example.com'']"
    and u: "example_bcc\<lparr>e_bcc := Some [bare ''hidden@example.com'']\<rparr> = example_bcc"
    and h: "e_headers example_bcc = []"
    by (simp_all add: example_bcc_def example_email_def)
  from bcc_never_emitted [where e = example_env and this = "example_bcc\<lparr>e_bcc := None\<rparr>"
      and b = "Some [bare ''hidden@example.com'']"]
  have 1: "map_option snd (getEmailData example_env example_bcc)
       = map_option snd (getEmailData example_env (example_bcc\<lparr>e_bcc := None\<rparr>))"
    by (simp add: u)
  from bcc_never_emitted [where e = example_env and this = example_bcc] obtain this' r where
    g: "getEmailData example_env example_bcc = Some (this', r)"
    and "map_of (e_headers this') ''BCC'' = map_of (e_headers example_bcc) ''BCC''"
    by (metis surj_pair)
  then have "map_of (e_headers this') ''BCC'' = None"
    by (simp add: h)
  with g have 2: "map_option (\<lambda>p. map_of (e_headers (fst p)) ''BCC'')
      (getEmailData example_env example_bcc) = Some None"
    by simp
  from b 1 2 show ?thesis
    by (intro conjI)
qed

text \<open>
  C3 as stated fails: custom headers are passed through whatever their name, so a custom
  header named \<^verbatim>\<open>BCC\<close> is emitted, here with an address of the \<^verbatim>\<open>bcc\<close> list in it.
\<close>

theorem custom_bcc_header_counterexample:
  "e_bcc example_bcc_header = Some [bare ''hidden@example.com'']
   \<and> e_headers example_bcc_header = [(''BCC'', ''hidden@example.com'')]
   \<and> getEmailData example_env example_bcc_header
     = Some (example_bcc_header\<lparr>e_headers :=
               [(''BCC'', ''hidden@example.com''),
                (''From'', ''a@example.com''), (''To'', ''b@example.com''),
                (''Subject'', ''=?utf-8?b?SGk=?=''),
                (''Date'', ''Tue, 03 Nov 2026 10:00:00 GMT''),
                (''Message-ID'', ''<123e4567-e89b-42d3-a456-426614174000@example.com>'')]\<rparr>,
         Inr (''MIME-Version: 1.0'' @ CRLF
              @ ''BCC: hidden@example.com'' @ CRLF
              @ ''From: a@example.com'' @ CRLF
              @ ''To: b@example.com'' @ CRLF
              @ ''Subject: =?utf-8?b?SGk=?='' @ CRLF
              @ ''Date: Tue, 03 Nov 2026 10:00:00 GMT'' @ CRLF
              @ ''Message-ID: <123e4567-e89b-42d3-a456-426614174000@example.com>'' @ CRLF
              @ ''Content-Type: multipart/mixed; boundary='' @ DQ @ ''mixed_001fab'' @ DQ @ CRLF
              @ CRLF
              @ ''--mixed_001fab'' @ CRLF
              @ ''Content-Type: multipart/alternative; boundary='' @ DQ @ ''alternative_001fab'' @ DQ @ CRLF
              @ CRLF
              @ ''--alternative_001fab'' @ CRLF
              @ ''Content-Type: text/plain; charset='' @ DQ @ ''utf-8'' @ DQ @ CRLF
              @ CRLF
              @ ''hello'' @ CRLF
              @ CRLF
              @ ''--alternative_001fab--'' @ CRLF
              @ ''--mixed_001fab--'' @ CRLF
              @ ''.'' @ CRLF))"
proof -
  have f: "e_text example_bcc_header = Some ''hello''" "e_html example_bcc_header = None"
    "e_attachments example_bcc_header = None"
    "e_bcc example_bcc_header = Some [bare ''hidden@example.com'']"
    "e_headers example_bcc_header = [(''BCC'', ''hidden@example.com'')]"
    by (simp_all add: example_bcc_header_def example_email_def)
  show ?thesis
    unfolding example_call [OF example_bcc_header_to f(1,2,3)] example_bcc_header_headers
    by (simp add: f header_line_def)
qed

section \<open>What a call changes, and the second call\<close>




end
